theory Spec2Isabelle
  imports Main "HOL-Library.Word" "HOL-Library.Monad_Syntax"
begin

chapter \<open>BusTub storage core: LRU-K replacer, buffer pool manager, B+Tree\<close>

text \<open>
  A shallow embedding of \<^verbatim>\<open>src/buffer/lru_k_replacer.cpp\<close>,
  \<^verbatim>\<open>src/buffer/buffer_pool_manager.cpp\<close>, the B+Tree page classes, the index
  iterator and \<^verbatim>\<open>src/storage/index/b_plus_tree.cpp\<close>. Frame ids and page ids are
  the C++ \<^verbatim>\<open>int32_t\<close> values (modelled as \<open>int\<close>), sizes and timestamps are
  \<^verbatim>\<open>size_t\<close> (modelled as \<open>nat\<close> with the wrap-around at \<open>2^64\<close> written out).
\<close>

type_synonym frame_id_t = int
type_synonym page_id_t = int
type_synonym node_ref = nat

definition INVALID_PAGE_ID :: page_id_t where
  "INVALID_PAGE_ID = -1"

datatype error =
    FrameNotFound     \<comment> \<open>\<^verbatim>\<open>throw std::runtime_error("Frame_id does not exist")\<close>\<close>
  | CannotRemove      \<comment> \<open>\<^verbatim>\<open>throw std::runtime_error("Cannot remove")\<close>\<close>
  | BadFrame          \<comment> \<open>\<^verbatim>\<open>pages_[frame_id]\<close> with \<^verbatim>\<open>frame_id\<close> outside the array: undefined behaviour\<close>

section \<open>LRU-K replacer\<close>

subsection \<open>Nodes\<close>

text \<open>
  Modelled from the spec: the class \<^verbatim>\<open>LRUKNode\<close> lives in the header
  \<^verbatim>\<open>buffer/lru_k_replacer.h\<close>, which is not among the sources. The spec gives a node
  a frame id, a bounded history of access timestamps (the most recent \<open>k\<close>), an
  evictable flag and a k-distance; a node starts non-evictable (creating one does not
  touch \<^verbatim>\<open>curr_size_\<close>).
\<close>

record LRUKNode =
  node_history :: "nat list"
  node_k :: nat
  node_fid :: frame_id_t
  node_evictable :: bool
  node_k_distance :: nat

definition new_LRUKNode :: "frame_id_t \<Rightarrow> nat \<Rightarrow> LRUKNode" where
  "new_LRUKNode frame_id k =
     \<lparr>node_history = [], node_k = k, node_fid = frame_id,
      node_evictable = False, node_k_distance = 0\<rparr>"

definition InsertTimeStamp :: "nat \<Rightarrow> LRUKNode \<Rightarrow> LRUKNode" where
  "InsertTimeStamp ts n =
     (let h = node_history n @ [ts]
      in n\<lparr>node_history := (if length h > node_k n then tl h else h)\<rparr>)"

definition GetNumOfReferences :: "LRUKNode \<Rightarrow> nat" where
  "GetNumOfReferences n = length (node_history n)"

text \<open>
  \<^verbatim>\<open>UpdateKDistance()\<close> recomputes the stored k-distance from the node's own history.
  Its body is in the missing header, so the function \<open>kd\<close> from a history to a
  k-distance is a parameter of everything that calls it.
\<close>

definition UpdateKDistance :: "(nat list \<Rightarrow> nat) \<Rightarrow> LRUKNode \<Rightarrow> LRUKNode" where
  "UpdateKDistance kd n = n\<lparr>node_k_distance := kd (node_history n)\<rparr>"

subsection \<open>Replacer state\<close>

text \<open>
  The two lists and the two maps hold \<^verbatim>\<open>std::shared_ptr<LRUKNode>\<close>: one node object
  is reachable from its list and from its map, and \<^verbatim>\<open>SetEvictable\<close> mutates it in
  place. The objects live in \<open>node_heap\<close>, the containers hold references, and
  \<open>next_ref\<close> is the next address \<^verbatim>\<open>std::make_shared\<close> hands out.
\<close>

record LRUKReplacer =
  node_heap :: "node_ref \<rightharpoonup> LRUKNode"
  next_ref :: node_ref
  default_list :: "node_ref list"
  default_map :: "frame_id_t \<rightharpoonup> node_ref"
  k_list :: "node_ref list"
  k_map :: "frame_id_t \<rightharpoonup> node_ref"
  curr_size :: nat
  current_timestamp :: nat
  replacer_size :: nat
  replacer_k :: nat

definition LRUKReplacer_init :: "nat \<Rightarrow> nat \<Rightarrow> LRUKReplacer" where
  "LRUKReplacer_init num_frames k =
     \<lparr>node_heap = Map.empty, next_ref = 0,
      default_list = [], default_map = Map.empty,
      k_list = [], k_map = Map.empty,
      curr_size = 0, current_timestamp = 0,
      replacer_size = num_frames, replacer_k = k\<rparr>"

definition deref :: "LRUKReplacer \<Rightarrow> node_ref \<Rightarrow> LRUKNode" where
  "deref r a = the (node_heap r a)"

definition GetEvictable :: "LRUKReplacer \<Rightarrow> node_ref \<Rightarrow> bool" where
  "GetEvictable r a = node_evictable (deref r a)"

definition GetFrameId :: "LRUKReplacer \<Rightarrow> node_ref \<Rightarrow> frame_id_t" where
  "GetFrameId r a = node_fid (deref r a)"

definition GetKDistance :: "LRUKReplacer \<Rightarrow> node_ref \<Rightarrow> nat" where
  "GetKDistance r a = node_k_distance (deref r a)"

text \<open>\<^verbatim>\<open>--curr_size_\<close> and \<^verbatim>\<open>++current_timestamp_\<close> on a 64-bit \<^verbatim>\<open>size_t\<close>.\<close>

definition size_t_dec :: "nat \<Rightarrow> nat" where
  "size_t_dec n = (if n = 0 then 2 ^ 64 - 1 else n - 1)"

definition size_t_inc :: "nat \<Rightarrow> nat" where
  "size_t_inc n = (n + 1) mod 2 ^ 64"

subsection \<open>Evict and RemoveNode\<close>

text \<open>
  The loop of \<^verbatim>\<open>RemoveNode\<close> walks a reverse iterator from \<^verbatim>\<open>rbegin()\<close>: \<open>rscan\<close>
  is that loop over the reversed list. It yields the first reference whose node is
  evictable together with the reversed list without that one element.
\<close>

primrec rscan :: "(node_ref \<Rightarrow> bool) \<Rightarrow> node_ref list \<Rightarrow> (node_ref \<times> node_ref list) option" where
  "rscan ev [] = None"
| "rscan ev (a # as) =
     (if ev a then Some (a, as)
      else (case rscan ev as of
              None \<Rightarrow> None
            | Some (b, bs) \<Rightarrow> Some (b, a # bs)))"

text \<open>
  \<^verbatim>\<open>RemoveNode(frame_id, lst, map)\<close>: the result is the frame id written through the
  out-parameter (\<open>None\<close> for \<^verbatim>\<open>return false\<close>), the new list, the new map and the
  new \<^verbatim>\<open>curr_size_\<close>.
\<close>

definition RemoveNode ::
  "LRUKReplacer \<Rightarrow> node_ref list \<Rightarrow> (frame_id_t \<rightharpoonup> node_ref) \<Rightarrow>
   frame_id_t option \<times> node_ref list \<times> (frame_id_t \<rightharpoonup> node_ref) \<times> nat" where
  "RemoveNode r lst mp =
     (case rscan (GetEvictable r) (rev lst) of
        None \<Rightarrow> (None, lst, mp, curr_size r)
      | Some (a, rest) \<Rightarrow>
          (Some (GetFrameId r a), rev rest, mp(GetFrameId r a := None),
           size_t_dec (curr_size r)))"

definition Evict :: "LRUKReplacer \<Rightarrow> frame_id_t option \<times> LRUKReplacer" where
  "Evict r =
     (if curr_size r = 0 then (None, r)
      else
        let (res1, r1) =
              (if default_list r \<noteq> [] then
                 (case RemoveNode r (default_list r) (default_map r) of
                    (res, lst, mp, n) \<Rightarrow>
                      (res, r\<lparr>default_list := lst, default_map := mp, curr_size := n\<rparr>))
               else (None, r))
        in if res1 = None \<and> k_list r1 \<noteq> [] then
             (case RemoveNode r1 (k_list r1) (k_map r1) of
                (res, lst, mp, n) \<Rightarrow>
                  (res, r1\<lparr>k_list := lst, k_map := mp, curr_size := n\<rparr>))
           else (res1, r1))"

subsection \<open>RecordAccess and InsertKNode\<close>

primrec insert_before :: "(node_ref \<Rightarrow> bool) \<Rightarrow> node_ref \<Rightarrow> node_ref list \<Rightarrow> node_ref list" where
  "insert_before adv a [] = [a]"
| "insert_before adv a (b # bs) = (if adv b then b # insert_before adv a bs else a # b # bs)"

text \<open>
  \<^verbatim>\<open>InsertKNode\<close>: the iterator starts at the front and advances while the new node's
  k-distance is smaller than the one it looks at; the node goes in before it.
\<close>

definition InsertKNode :: "LRUKReplacer \<Rightarrow> node_ref \<Rightarrow> LRUKReplacer" where
  "InsertKNode r a =
     (if k_list r = [] then r\<lparr>k_list := [a]\<rparr>
      else r\<lparr>k_list := insert_before (\<lambda>b. GetKDistance r a < GetKDistance r b) a (k_list r)\<rparr>)"

definition as_int32 :: "nat \<Rightarrow> int" where
  "as_int32 n = sint (word_of_nat n :: 32 word)"

definition RecordAccess :: "(nat list \<Rightarrow> nat) \<Rightarrow> LRUKReplacer \<Rightarrow> frame_id_t \<Rightarrow> LRUKReplacer" where
  "RecordAccess kd r frame_id =
     (if frame_id > as_int32 (replacer_size r) then r
      else
        let r' =
          (case (default_map r frame_id, k_map r frame_id) of
             (None, None) \<Rightarrow>
               let a = next_ref r;
                   node = InsertTimeStamp (current_timestamp r) (new_LRUKNode frame_id (replacer_k r))
               in r\<lparr>node_heap := (node_heap r)(a \<mapsto> node), next_ref := a + 1,
                     default_map := (default_map r)(frame_id \<mapsto> a),
                     default_list := a # default_list r\<rparr>
           | (Some a, _) \<Rightarrow>
               let node = InsertTimeStamp (current_timestamp r) (deref r a)
               in if GetNumOfReferences node \<ge> replacer_k r then
                    InsertKNode
                      (r\<lparr>node_heap := (node_heap r)(a \<mapsto> UpdateKDistance kd node),
                         default_list := removeAll a (default_list r),
                         default_map := (default_map r)(frame_id := None),
                         k_map := (k_map r)(frame_id \<mapsto> a)\<rparr>) a
                  else r\<lparr>node_heap := (node_heap r)(a \<mapsto> node)\<rparr>
           | (None, Some a) \<Rightarrow>
               let node = UpdateKDistance kd (InsertTimeStamp (current_timestamp r) (deref r a))
               in InsertKNode
                    (r\<lparr>node_heap := (node_heap r)(a \<mapsto> node),
                       k_list := removeAll a (k_list r)\<rparr>) a)
        in r'\<lparr>current_timestamp := size_t_inc (current_timestamp r)\<rparr>)"

subsection \<open>SetEvictable, Remove, Size\<close>

definition SetEvictable :: "LRUKReplacer \<Rightarrow> frame_id_t \<Rightarrow> bool \<Rightarrow> error + LRUKReplacer" where
  "SetEvictable r frame_id set_evictable =
     (case (default_map r frame_id, k_map r frame_id) of
        (None, None) \<Rightarrow> Inl FrameNotFound
      | (dflt, kk) \<Rightarrow>
          let a = (case dflt of Some a \<Rightarrow> a | None \<Rightarrow> the kk);
              n = (if GetEvictable r a \<and> \<not> set_evictable then size_t_dec (curr_size r)
                   else if \<not> GetEvictable r a \<and> set_evictable then size_t_inc (curr_size r)
                   else curr_size r)
          in Inr (r\<lparr>node_heap := (node_heap r)(a \<mapsto> (deref r a)\<lparr>node_evictable := set_evictable\<rparr>),
                    curr_size := n\<rparr>))"

definition Remove :: "LRUKReplacer \<Rightarrow> frame_id_t \<Rightarrow> error + LRUKReplacer" where
  "Remove r frame_id =
     (case (default_map r frame_id, k_map r frame_id) of
        (None, None) \<Rightarrow> Inr r
      | (Some a, _) \<Rightarrow>
          if \<not> GetEvictable r a then Inl CannotRemove
          else Inr (r\<lparr>default_map := (default_map r)(frame_id := None),
                      default_list := removeAll a (default_list r),
                      curr_size := size_t_dec (curr_size r)\<rparr>)
      | (None, Some a) \<Rightarrow>
          if \<not> GetEvictable r a then Inl CannotRemove
          else Inr (r\<lparr>k_map := (k_map r)(frame_id := None),
                      k_list := removeAll a (k_list r),
                      curr_size := size_t_dec (curr_size r)\<rparr>))"

definition Size :: "LRUKReplacer \<Rightarrow> nat" where
  "Size r = curr_size r"


section \<open>Buffer pool manager\<close>

text \<open>
  Modelled from the spec: the class \<^verbatim>\<open>Page\<close> (\<^verbatim>\<open>storage/page/page.h\<close>) and the
  members of \<^verbatim>\<open>BufferPoolManager\<close> are declared in headers that are not among the
  sources. A frame has a byte buffer of \<^verbatim>\<open>PAGE_SIZE\<close> bytes, the resident page id
  (or \<open>INVALID\<close>), a pin counter and a dirty flag; \<^verbatim>\<open>ResetMemory\<close> zeroes the buffer
  and nothing else. The page-id counter is the spec's monotonic counter. The constant
  \<^verbatim>\<open>BUSTUB_PAGE_SIZE\<close> comes from \<^verbatim>\<open>common/config.h\<close>, which is missing as well: the
  number of bytes of a page is the field \<open>bytes_per_page\<close> of the pool.
\<close>

record Page =
  page_data :: "nat list"
  page_id :: page_id_t
  pin_count :: int
  is_dirty :: bool

definition new_Page :: "nat \<Rightarrow> Page" where
  "new_Page page_size = \<lparr>page_data = replicate page_size 0, page_id = INVALID_PAGE_ID,
               pin_count = 0, is_dirty = False\<rparr>"

definition ResetMemory :: "nat \<Rightarrow> Page \<Rightarrow> Page" where
  "ResetMemory page_size p = p\<lparr>page_data := replicate page_size 0\<rparr>"

text \<open>
  The disk manager is an external collaborator. The model keeps the bytes it holds per
  page and the sequence of calls the pool has issued, oldest first.
  \<^verbatim>\<open>DeallocatePage\<close> is a member of the pool declared in the missing header; following
  the spec it is recorded as a call on the disk manager.
\<close>

datatype disk_op =
    WritePage page_id_t "nat list"
  | ReadPage page_id_t
  | DeallocatePage page_id_t

record BufferPoolManager =
  bytes_per_page :: nat
  pool_size :: nat
  pages :: "Page list"
  page_table :: "page_id_t \<rightharpoonup> frame_id_t"
  free_list :: "frame_id_t list"
  replacer :: LRUKReplacer
  next_page_id :: page_id_t
  disk_pages :: "page_id_t \<rightharpoonup> nat list"
  disk_log :: "disk_op list"

definition BufferPoolManager_init :: "nat \<Rightarrow> nat \<Rightarrow> nat \<Rightarrow> BufferPoolManager" where
  "BufferPoolManager_init page_size psize replacer_k' =
     \<lparr>bytes_per_page = page_size,
      pool_size = psize,
      pages = replicate psize (new_Page page_size),
      page_table = Map.empty,
      free_list = map int [0..<psize],
      replacer = LRUKReplacer_init psize replacer_k',
      next_page_id = 0,
      disk_pages = Map.empty,
      disk_log = []\<rparr>"

definition frame_ok :: "BufferPoolManager \<Rightarrow> frame_id_t \<Rightarrow> bool" where
  "frame_ok s f = (0 \<le> f \<and> nat f < length (pages s))"

definition frame :: "BufferPoolManager \<Rightarrow> frame_id_t \<Rightarrow> Page" where
  "frame s f = pages s ! nat f"

definition set_frame :: "BufferPoolManager \<Rightarrow> frame_id_t \<Rightarrow> Page \<Rightarrow> BufferPoolManager" where
  "set_frame s f p = s\<lparr>pages := (pages s)[nat f := p]\<rparr>"

definition disk_WritePage :: "BufferPoolManager \<Rightarrow> page_id_t \<Rightarrow> nat list \<Rightarrow> BufferPoolManager" where
  "disk_WritePage s pid bytes =
     s\<lparr>disk_pages := (disk_pages s)(pid \<mapsto> bytes), disk_log := disk_log s @ [WritePage pid bytes]\<rparr>"

definition disk_read :: "BufferPoolManager \<Rightarrow> page_id_t \<Rightarrow> nat list" where
  "disk_read s pid = (case disk_pages s pid of Some bytes \<Rightarrow> bytes | None \<Rightarrow> replicate (bytes_per_page s) 0)"

definition bpm_DeallocatePage :: "BufferPoolManager \<Rightarrow> page_id_t \<Rightarrow> BufferPoolManager" where
  "bpm_DeallocatePage s pid = s\<lparr>disk_log := disk_log s @ [DeallocatePage pid]\<rparr>"

definition AllocatePage :: "BufferPoolManager \<Rightarrow> page_id_t \<times> BufferPoolManager" where
  "AllocatePage s = (next_page_id s, s\<lparr>next_page_id := next_page_id s + 1\<rparr>)"

text \<open>
  The victim branch that \<^verbatim>\<open>NewPage\<close> and \<^verbatim>\<open>FetchPage\<close> repeat word for word:
  \<^verbatim>\<open>frame_id\<close> starts as 0 and \<^verbatim>\<open>Evict\<close> writes it only on success (its result is
  not looked at); a dirty victim is written back; its page id leaves the page table; the
  memory is reset; \<^verbatim>\<open>DeallocatePage\<close> gets the old id.
\<close>

definition evict_frame :: "BufferPoolManager \<Rightarrow> error + (frame_id_t \<times> BufferPoolManager)" where
  "evict_frame s =
     (case Evict (replacer s) of
        (res, r') \<Rightarrow>
          let frame_id = (case res of Some f \<Rightarrow> f | None \<Rightarrow> 0);
              s1 = s\<lparr>replacer := r'\<rparr>
          in if \<not> frame_ok s1 frame_id then Inl BadFrame
             else
               let pg = frame s1 frame_id;
                   s2 = (if is_dirty pg then disk_WritePage s1 (page_id pg) (page_data pg) else s1);
                   s3 = s2\<lparr>page_table := (page_table s2)(page_id pg := None)\<rparr>;
                   s4 = set_frame s3 frame_id (ResetMemory (bytes_per_page s3) pg)
               in Inr (frame_id, bpm_DeallocatePage s4 (page_id pg)))"

definition acquire_frame :: "BufferPoolManager \<Rightarrow> error + (frame_id_t \<times> BufferPoolManager)" where
  "acquire_frame s =
     (if free_list s \<noteq> [] then
        (let frame_id = hd (free_list s);
             s1 = s\<lparr>free_list := tl (free_list s)\<rparr>
         in if frame_ok s1 frame_id then Inr (frame_id, s1) else Inl BadFrame)
      else evict_frame s)"

text \<open>
  The tail both functions share after the frame is chosen: install the page id with
  pin count 1 and a clean dirty flag, enter it into the page table, record the access and
  mark the frame non-evictable.
\<close>

definition install_page ::
  "(nat list \<Rightarrow> nat) \<Rightarrow> BufferPoolManager \<Rightarrow> frame_id_t \<Rightarrow> page_id_t \<Rightarrow> error + BufferPoolManager" where
  "install_page kd s frame_id pid =
     (let s1 = set_frame s frame_id ((frame s frame_id)\<lparr>page_id := pid, pin_count := 1, is_dirty := False\<rparr>);
          s2 = s1\<lparr>page_table := (page_table s1)(pid \<mapsto> frame_id)\<rparr>
      in case SetEvictable (RecordAccess kd (replacer s2) frame_id) frame_id False of
           Inl e \<Rightarrow> Inl e
         | Inr r' \<Rightarrow> Inr (s2\<lparr>replacer := r'\<rparr>))"

text \<open>
  \<^verbatim>\<open>NewPage\<close> returns the new page id and the frame the returned \<^verbatim>\<open>Page *\<close> points
  to, or \<open>None\<close> for \<^verbatim>\<open>nullptr\<close>.
\<close>

definition NewPage ::
  "(nat list \<Rightarrow> nat) \<Rightarrow> BufferPoolManager \<Rightarrow> error + ((page_id_t \<times> frame_id_t) option \<times> BufferPoolManager)" where
  "NewPage kd s =
     (if free_list s \<noteq> [] \<or> Size (replacer s) > 0 then
        (case acquire_frame s of
           Inl e \<Rightarrow> Inl e
         | Inr (frame_id, s1) \<Rightarrow>
             (case AllocatePage s1 of
                (page_new_id, s2) \<Rightarrow>
                  (case install_page kd s2 frame_id page_new_id of
                     Inl e \<Rightarrow> Inl e
                   | Inr s3 \<Rightarrow> Inr (Some (page_new_id, frame_id), s3))))
      else Inr (None, s))"

definition FetchPage ::
  "(nat list \<Rightarrow> nat) \<Rightarrow> BufferPoolManager \<Rightarrow> page_id_t \<Rightarrow> error + (frame_id_t option \<times> BufferPoolManager)" where
  "FetchPage kd s pid =
     (case page_table s pid of
        Some frame_id \<Rightarrow>
          if \<not> frame_ok s frame_id then Inl BadFrame
          else
            let pg = frame s frame_id;
                s1 = set_frame s frame_id (pg\<lparr>pin_count := pin_count pg + 1\<rparr>)
            in (case SetEvictable (RecordAccess kd (replacer s1) frame_id) frame_id False of
                  Inl e \<Rightarrow> Inl e
                | Inr r' \<Rightarrow> Inr (Some frame_id, s1\<lparr>replacer := r'\<rparr>))
      | None \<Rightarrow>
          if free_list s \<noteq> [] \<or> Size (replacer s) > 0 then
            (case acquire_frame s of
               Inl e \<Rightarrow> Inl e
             | Inr (frame_id, s1) \<Rightarrow>
                 let s2 = set_frame s1 frame_id ((frame s1 frame_id)\<lparr>page_data := disk_read s1 pid\<rparr>);
                     s3 = s2\<lparr>disk_log := disk_log s2 @ [ReadPage pid]\<rparr>
                 in (case install_page kd s3 frame_id pid of
                       Inl e \<Rightarrow> Inl e
                     | Inr s4 \<Rightarrow> Inr (Some frame_id, s4)))
          else Inr (None, s))"

definition UnpinPage :: "BufferPoolManager \<Rightarrow> page_id_t \<Rightarrow> bool \<Rightarrow> error + (bool \<times> BufferPoolManager)" where
  "UnpinPage s pid dirty =
     (case page_table s pid of
        None \<Rightarrow> Inr (False, s)
      | Some frame_id \<Rightarrow>
          if \<not> frame_ok s frame_id then Inl BadFrame
          else if pin_count (frame s frame_id) \<le> 0 then Inr (False, s)
          else
            let pg = frame s frame_id;
                pg1 = pg\<lparr>pin_count := pin_count pg - 1\<rparr>;
                pg2 = pg1\<lparr>is_dirty := (dirty \<or> is_dirty pg1)\<rparr>;
                s1 = set_frame s frame_id pg2
            in if pin_count pg2 = 0 then
                 (case SetEvictable (replacer s1) frame_id True of
                    Inl e \<Rightarrow> Inl e
                  | Inr r' \<Rightarrow> Inr (True, s1\<lparr>replacer := r'\<rparr>))
               else Inr (True, s1))"

definition FlushPage :: "BufferPoolManager \<Rightarrow> page_id_t \<Rightarrow> error + (bool \<times> BufferPoolManager)" where
  "FlushPage s pid =
     (case page_table s pid of
        None \<Rightarrow> Inr (False, s)
      | Some frame_id \<Rightarrow>
          if \<not> frame_ok s frame_id then Inl BadFrame
          else
            let s1 = disk_WritePage s pid (page_data (frame s frame_id))
            in Inr (True, set_frame s1 frame_id ((frame s1 frame_id)\<lparr>is_dirty := False\<rparr>)))"

definition DeletePage :: "BufferPoolManager \<Rightarrow> page_id_t \<Rightarrow> error + (bool \<times> BufferPoolManager)" where
  "DeletePage s pid =
     (case page_table s pid of
        None \<Rightarrow> Inr (True, s)
      | Some frame_id \<Rightarrow>
          if \<not> frame_ok s frame_id then Inl BadFrame
          else if pin_count (frame s frame_id) > 0 then Inr (False, s)
          else
            (case Remove (replacer s) frame_id of
               Inl e \<Rightarrow> Inl e
             | Inr r' \<Rightarrow>
                 let s1 = s\<lparr>replacer := r', free_list := free_list s @ [frame_id]\<rparr>;
                     pg = (ResetMemory (bytes_per_page s1) (frame s1 frame_id))
                            \<lparr>page_id := INVALID_PAGE_ID, is_dirty := False, pin_count := 0\<rparr>;
                     s2 = set_frame s1 frame_id pg;
                     s3 = s2\<lparr>page_table := (page_table s2)(pid := None)\<rparr>
                 in Inr (True, bpm_DeallocatePage s3 pid)))"

subsection \<open>Replacer invariants and the scenario S6\<close>

text \<open>
  \<^verbatim>\<open>curr_size_\<close> is meant to count the evictable nodes of both lists; the k-list is
  meant to be ordered by stored k-distance, largest at the front.
\<close>

definition evictable_count :: "LRUKReplacer \<Rightarrow> nat" where
  "evictable_count r = length (filter (GetEvictable r) (default_list r @ k_list r))"

definition kd_sorted :: "LRUKReplacer \<Rightarrow> bool" where
  "kd_sorted r = sorted_wrt (\<lambda>x y. GetKDistance r x \<ge> GetKDistance r y) (k_list r)"

text \<open>
  One k-distance function for the concrete runs: the oldest timestamp of the bounded
  history, that is the timestamp of the k-th most recent access.
\<close>

definition front_ts :: "nat list \<Rightarrow> nat" where
  "front_ts h = (case h of [] \<Rightarrow> 0 | t # _ \<Rightarrow> t)"

definition access_evictable :: "(nat list \<Rightarrow> nat) \<Rightarrow> frame_id_t \<Rightarrow> LRUKReplacer \<Rightarrow> LRUKReplacer" where
  "access_evictable kd f r =
     (case SetEvictable (RecordAccess kd r f) f True of Inr r' \<Rightarrow> r' | Inl _ \<Rightarrow> r)"

text \<open>Scenario S6: seven frames, \<open>k = 2\<close>, accesses 1,2,3,4,1,2,3,1,2, all evictable.\<close>

definition S6_replacer :: LRUKReplacer where
  "S6_replacer = fold (access_evictable front_ts) [1, 2, 3, 4, 1, 2, 3, 1, 2] (LRUKReplacer_init 7 2)"

subsection \<open>Frames as the replacer sees them, and two small pools\<close>

definition tracked :: "LRUKReplacer \<Rightarrow> frame_id_t \<Rightarrow> bool" where
  "tracked r f = (default_map r f \<noteq> None \<or> k_map r f \<noteq> None)"

definition node_of :: "LRUKReplacer \<Rightarrow> frame_id_t \<Rightarrow> node_ref" where
  "node_of r f = (case default_map r f of Some a \<Rightarrow> a | None \<Rightarrow> the (k_map r f))"

definition frame_evictable :: "LRUKReplacer \<Rightarrow> frame_id_t \<Rightarrow> bool" where
  "frame_evictable r f = (tracked r f \<and> GetEvictable r (node_of r f))"

text \<open>
  Scenario S2: a pool of two frames, pages 0 and 1 fetched and still pinned. The second
  pool has one frame: page 0 is created, written to and unpinned, so the frame is dirty
  and evictable.
\<close>

definition S2_pool :: BufferPoolManager where
  "S2_pool = snd (projr (FetchPage front_ts
                 (snd (projr (FetchPage front_ts (BufferPoolManager_init 4 2 2) 0))) 1))"

definition pinned_pool :: BufferPoolManager where
  "pinned_pool = snd (projr (NewPage front_ts (BufferPoolManager_init 4 1 2)))"

definition unpinned_pool :: BufferPoolManager where
  "unpinned_pool = snd (projr (UnpinPage pinned_pool 0 True))"

subsection \<open>The pool's invariant\<close>

text \<open>
  What the pool keeps true between calls, as far as \<^verbatim>\<open>NewPage\<close> depends on it: the
  replacer is sized for the pool's frames and counts its evictable nodes; a frame on the
  free list is a frame of the pool and is not pinned; an evictable node belongs to an
  unpinned frame of the pool; and an unpinned frame is on the free list or has an evictable
  node.
\<close>

definition all_pinned :: "BufferPoolManager \<Rightarrow> bool" where
  "all_pinned s = (\<forall>f. frame_ok s f \<longrightarrow> pin_count (frame s f) > 0)"

definition bpm_inv :: "BufferPoolManager \<Rightarrow> bool" where
  "bpm_inv s \<longleftrightarrow>
     length (pages s) = pool_size s \<and> replacer_size (replacer s) = pool_size s \<and>
     pool_size s < 2 ^ 31 \<and>
     curr_size (replacer s) = evictable_count (replacer s) \<and>
     (\<forall>f\<in>set (free_list s). frame_ok s f \<and> pin_count (frame s f) \<le> 0) \<and>
     (\<forall>a\<in>set (default_list (replacer s) @ k_list (replacer s)).
        GetEvictable (replacer s) a \<longrightarrow>
        frame_ok s (GetFrameId (replacer s) a) \<and>
        pin_count (frame s (GetFrameId (replacer s) a)) \<le> 0) \<and>
     (\<forall>f. frame_ok s f \<and> pin_count (frame s f) \<le> 0 \<longrightarrow>
        f \<in> set (free_list s) \<or>
        (\<exists>a\<in>set (default_list (replacer s) @ k_list (replacer s)).
           GetEvictable (replacer s) a \<and> GetFrameId (replacer s) a = f))"

section \<open>B+Tree pages\<close>

text \<open>
  Modelled from the spec: \<^verbatim>\<open>GenericKey\<close>, \<^verbatim>\<open>GenericComparator\<close> and \<^verbatim>\<open>RID\<close> are
  declared in headers that are not among the sources. Keys are the integers the generic
  keys encode, the comparator is the three-way comparison of the spec, and a leaf's value
  (a \<^verbatim>\<open>RID\<close>) and an internal page's value (a child page id) are integers.
\<close>

type_synonym KeyType = int
type_synonym ValueType = int
type_synonym MappingType = "KeyType \<times> ValueType"

definition comparator :: "KeyType \<Rightarrow> KeyType \<Rightarrow> int" where
  "comparator a b = (if a < b then -1 else if b < a then 1 else 0)"

subsection \<open>The entry array\<close>

text \<open>
  \<^verbatim>\<open>array_\<close> is the tail of the page's byte buffer. The buffer is zeroed when the frame
  is created or reset, and \<^verbatim>\<open>SetSize\<close> never erases an entry: the model keeps the
  entries that have been written (a list, entries past \<^verbatim>\<open>size_\<close> included) and reads a
  cell that was never written as zero bytes.
\<close>

definition cell :: "MappingType list \<Rightarrow> nat \<Rightarrow> MappingType" where
  "cell arr i = (if i < length arr then arr ! i else (0, 0))"

definition read_cells :: "MappingType list \<Rightarrow> nat \<Rightarrow> nat \<Rightarrow> MappingType list" where
  "read_cells arr lo hi = map (cell arr) [lo..<hi]"

definition write_cells :: "MappingType list \<Rightarrow> nat \<Rightarrow> MappingType list \<Rightarrow> MappingType list" where
  "write_cells arr pos xs =
     take pos (arr @ replicate (pos - length arr) (0, 0)) @ xs @ drop (pos + length xs) arr"

text \<open>
  \<^verbatim>\<open>std::lower_bound(first, first + len, key, comp)\<close> as the standard library runs it:
  halve the range, look at the middle element, keep the half on the side the comparison
  points to. \<open>cmpf\<close> is the lambda \<^verbatim>\<open>compare_first\<close> with the key already supplied.
\<close>

function lower_bound :: "MappingType list \<Rightarrow> (MappingType \<Rightarrow> bool) \<Rightarrow> int \<Rightarrow> int \<Rightarrow> int" where
  "lower_bound arr cmpf first len =
     (if 0 < len then
        (if cmpf (cell arr (nat (first + len div 2)))
         then lower_bound arr cmpf (first + len div 2 + 1) (len - len div 2 - 1)
         else lower_bound arr cmpf first (len div 2))
      else first)"
  by pat_completeness auto
termination
  by (relation "measure (\<lambda>(arr, cmpf, first, len). nat len)") auto

declare lower_bound.simps [simp del]

subsection \<open>Leaf pages\<close>

record LeafPage =
  leaf_size :: int
  leaf_max_size :: int
  leaf_parent_page_id :: page_id_t
  leaf_next_page_id :: page_id_t
  leaf_array :: "MappingType list"

definition leaf_Init :: "page_id_t \<Rightarrow> int \<Rightarrow> LeafPage \<Rightarrow> LeafPage" where
  "leaf_Init parent_page_id max_size p =
     p\<lparr>leaf_max_size := max_size, leaf_size := 0, leaf_parent_page_id := parent_page_id,
       leaf_next_page_id := INVALID_PAGE_ID\<rparr>"

text \<open>A page that has just been created: zero bytes.\<close>

definition zero_leaf :: LeafPage where
  "zero_leaf = \<lparr>leaf_size = 0, leaf_max_size = 0, leaf_parent_page_id = 0,
                leaf_next_page_id = 0, leaf_array = []\<rparr>"

text \<open>Division of C++ \<^verbatim>\<open>int\<close>s by 2 truncates toward zero.\<close>

definition half_int :: "int \<Rightarrow> int" where
  "half_int m = (if 0 \<le> m then m div 2 else - ((- m) div 2))"

definition leaf_GetMinSize :: "LeafPage \<Rightarrow> int" where
  "leaf_GetMinSize p = half_int (leaf_max_size p)"

text \<open>\<^verbatim>\<open>KeyAt\<close>, \<^verbatim>\<open>ValueAt\<close> and \<^verbatim>\<open>SetKeyValueAt\<close> of a leaf assert \<^verbatim>\<open>index < GetSize()\<close>.\<close>

definition leaf_KeyAt :: "LeafPage \<Rightarrow> int \<Rightarrow> KeyType option" where
  "leaf_KeyAt p i = (if i < leaf_size p \<and> 0 \<le> i then Some (fst (cell (leaf_array p) (nat i))) else None)"

definition leaf_ValueAt :: "LeafPage \<Rightarrow> int \<Rightarrow> ValueType option" where
  "leaf_ValueAt p i = (if i < leaf_size p \<and> 0 \<le> i then Some (snd (cell (leaf_array p) (nat i))) else None)"

definition leaf_SetKeyValueAt :: "LeafPage \<Rightarrow> int \<Rightarrow> KeyType \<Rightarrow> ValueType \<Rightarrow> LeafPage option" where
  "leaf_SetKeyValueAt p i k v =
     (if i < leaf_size p \<and> 0 \<le> i
      then Some (p\<lparr>leaf_array := write_cells (leaf_array p) (nat i) [(k, v)]\<rparr>)
      else None)"

text \<open>
  \<^verbatim>\<open>FindValue\<close> of a leaf: the value and the slot index on success. The search range is
  \<^verbatim>\<open>[array_, array_ + GetSize() - 1)\<close> and the element the iterator ends on is read
  whatever the range was.
\<close>

definition leaf_FindValue :: "LeafPage \<Rightarrow> KeyType \<Rightarrow> (ValueType \<times> int) option" where
  "leaf_FindValue p key =
     (let res = lower_bound (leaf_array p) (\<lambda>e. comparator (fst e) key < 0) 0 (leaf_size p - 1)
      in if comparator key (fst (cell (leaf_array p) (nat res))) = 0
         then Some (snd (cell (leaf_array p) (nat res)), res)
         else None)"

definition leaf_Insert :: "LeafPage \<Rightarrow> KeyType \<Rightarrow> ValueType \<Rightarrow> bool \<times> LeafPage" where
  "leaf_Insert p key v =
     (let size = leaf_size p;
          it = lower_bound (leaf_array p) (\<lambda>e. comparator (fst e) key < 0) 0 size
      in if it < size \<and> comparator key (fst (cell (leaf_array p) (nat it))) = 0 then (False, p)
         else
           let moved = write_cells (leaf_array p) (nat it + 1) (read_cells (leaf_array p) (nat it) (nat size))
           in (True, p\<lparr>leaf_array := write_cells moved (nat it) [(key, v)], leaf_size := size + 1\<rparr>))"

definition leaf_Delete :: "LeafPage \<Rightarrow> KeyType \<Rightarrow> ValueType \<Rightarrow> bool \<times> LeafPage" where
  "leaf_Delete p key v =
     (if leaf_size p = 0 then (False, p)
      else
        let res = lower_bound (leaf_array p) (\<lambda>e. comparator (fst e) key < 0) 0 (leaf_size p - 1)
        in if comparator key (fst (cell (leaf_array p) (nat res))) = 0 \<and>
              v = snd (cell (leaf_array p) (nat res))
           then (True, p\<lparr>leaf_array := write_cells (leaf_array p) (nat res)
                                          (read_cells (leaf_array p) (nat res + 1) (nat (leaf_size p))),
                         leaf_size := leaf_size p - 1\<rparr>)
           else (False, p))"

definition leaf_Merge :: "LeafPage \<Rightarrow> MappingType list \<Rightarrow> int \<Rightarrow> LeafPage" where
  "leaf_Merge p src n =
     p\<lparr>leaf_array := write_cells (leaf_array p) (nat (leaf_size p)) (read_cells src 0 (nat n)),
       leaf_size := leaf_size p + n\<rparr>"

definition leaf_ShiftData :: "LeafPage \<Rightarrow> int \<Rightarrow> LeafPage" where
  "leaf_ShiftData p dist =
     (let arr = leaf_array p;
          arr' = (if 0 < dist then write_cells arr (nat dist) (read_cells arr 0 (nat (leaf_size p)))
                  else if dist < 0 then write_cells arr 0 (read_cells arr (nat (- dist)) (nat (leaf_size p)))
                  else arr)
      in p\<lparr>leaf_array := arr', leaf_size := leaf_size p + dist\<rparr>)"

definition leaf_CopyHalfFrom :: "LeafPage \<Rightarrow> MappingType list \<Rightarrow> int \<Rightarrow> int \<Rightarrow> LeafPage" where
  "leaf_CopyHalfFrom p src min_size cur_size =
     p\<lparr>leaf_array := write_cells (leaf_array p) 0 (read_cells src (nat min_size) (nat cur_size))\<rparr>"

definition leaf_entries :: "LeafPage \<Rightarrow> MappingType list" where
  "leaf_entries p = read_cells (leaf_array p) 0 (nat (leaf_size p))"

subsection \<open>Internal pages\<close>

record InternalPage =
  int_size :: int
  int_max_size :: int
  int_parent_page_id :: page_id_t
  int_array :: "MappingType list"

definition internal_Init :: "page_id_t \<Rightarrow> int \<Rightarrow> InternalPage \<Rightarrow> InternalPage" where
  "internal_Init parent_page_id max_size p =
     p\<lparr>int_max_size := max_size, int_size := 0, int_parent_page_id := parent_page_id\<rparr>"

definition zero_internal :: InternalPage where
  "zero_internal = \<lparr>int_size = 0, int_max_size = 0, int_parent_page_id = 0, int_array = []\<rparr>"

definition internal_GetMinSize :: "InternalPage \<Rightarrow> int" where
  "internal_GetMinSize p = half_int (int_max_size p + 1)"

text \<open>
  The accessors of an internal page have no assertion. An index below 0 addresses the
  bytes of the page header in front of \<^verbatim>\<open>array_\<close>, which the model does not represent:
  such an access has no result.
\<close>

definition internal_KeyAt :: "InternalPage \<Rightarrow> int \<Rightarrow> KeyType option" where
  "internal_KeyAt p i = (if 0 \<le> i then Some (fst (cell (int_array p) (nat i))) else None)"

definition internal_ValueAt :: "InternalPage \<Rightarrow> int \<Rightarrow> ValueType option" where
  "internal_ValueAt p i = (if 0 \<le> i then Some (snd (cell (int_array p) (nat i))) else None)"

definition internal_SetKeyAt :: "InternalPage \<Rightarrow> int \<Rightarrow> KeyType \<Rightarrow> InternalPage option" where
  "internal_SetKeyAt p i k =
     (if 0 \<le> i
      then Some (p\<lparr>int_array := write_cells (int_array p) (nat i) [(k, snd (cell (int_array p) (nat i)))]\<rparr>)
      else None)"

definition internal_SetValueAt :: "InternalPage \<Rightarrow> int \<Rightarrow> ValueType \<Rightarrow> InternalPage option" where
  "internal_SetValueAt p i v =
     (if 0 \<le> i
      then Some (p\<lparr>int_array := write_cells (int_array p) (nat i) [(fst (cell (int_array p) (nat i)), v)]\<rparr>)
      else None)"

definition internal_SetKeyValueAt :: "InternalPage \<Rightarrow> int \<Rightarrow> KeyType \<Rightarrow> ValueType \<Rightarrow> InternalPage option" where
  "internal_SetKeyValueAt p i k v =
     (if 0 \<le> i then Some (p\<lparr>int_array := write_cells (int_array p) (nat i) [(k, v)]\<rparr>) else None)"

text \<open>
  \<^verbatim>\<open>FindValue\<close> of an internal page: the child page id and the slot index written through
  \<^verbatim>\<open>child_page_index\<close>. The search runs over \<^verbatim>\<open>[array_, array_ + GetSize())\<close>, with
  the comparison \<^verbatim>\<open>comparator(lhs.first, rhs) <= 0\<close>, and steps one element back.
\<close>

definition internal_FindValue :: "InternalPage \<Rightarrow> KeyType \<Rightarrow> (ValueType \<times> int) option" where
  "internal_FindValue p key =
     (let res = lower_bound (int_array p) (\<lambda>e. comparator (fst e) key \<le> 0) 0 (int_size p) - 1
      in if 0 \<le> res then Some (snd (cell (int_array p) (nat res)), res) else None)"

definition internal_Insert :: "InternalPage \<Rightarrow> KeyType \<Rightarrow> ValueType \<Rightarrow> InternalPage" where
  "internal_Insert p key v =
     (let size = int_size p; arr = int_array p
      in if comparator key (fst (cell arr 0)) < 0 then
           p\<lparr>int_array := write_cells (write_cells arr 1 (read_cells arr 0 (nat size))) 0 [(key, v)],
             int_size := size + 1\<rparr>
         else
           let it = lower_bound arr (\<lambda>e. comparator (fst e) key < 0) 1 (size - 1);
               moved = write_cells arr (nat it + 1) (read_cells arr (nat it) (nat size))
           in p\<lparr>int_array := write_cells moved (nat it) [(key, v)], int_size := size + 1\<rparr>)"

definition internal_Delete :: "InternalPage \<Rightarrow> KeyType \<Rightarrow> ValueType \<Rightarrow> bool \<times> InternalPage" where
  "internal_Delete p key v =
     (let res = lower_bound (int_array p) (\<lambda>e. comparator (fst e) key < 0) 0 (int_size p - 1)
      in if comparator key (fst (cell (int_array p) (nat res))) = 0 \<and>
            v = snd (cell (int_array p) (nat res))
         then (True, p\<lparr>int_array := write_cells (int_array p) (nat res)
                                        (read_cells (int_array p) (nat res + 1) (nat (int_size p))),
                       int_size := int_size p - 1\<rparr>)
         else (False, p))"

definition internal_Merge :: "InternalPage \<Rightarrow> MappingType list \<Rightarrow> int \<Rightarrow> InternalPage" where
  "internal_Merge p src n =
     p\<lparr>int_array := write_cells (int_array p) (nat (int_size p)) (read_cells src 0 (nat n)),
       int_size := int_size p + n\<rparr>"

definition internal_ShiftData :: "InternalPage \<Rightarrow> int \<Rightarrow> InternalPage" where
  "internal_ShiftData p dist =
     (let arr = int_array p;
          arr' = (if 0 < dist then write_cells arr (nat dist) (read_cells arr 0 (nat (int_size p)))
                  else if dist < 0 then write_cells arr 0 (read_cells arr (nat (- dist)) (nat (int_size p)))
                  else arr)
      in p\<lparr>int_array := arr', int_size := int_size p + dist\<rparr>)"

definition internal_CopyHalfFrom :: "InternalPage \<Rightarrow> MappingType list \<Rightarrow> int \<Rightarrow> int \<Rightarrow> InternalPage" where
  "internal_CopyHalfFrom p src min_size cur_size =
     p\<lparr>int_array := write_cells (int_array p) 0 (read_cells src (nat min_size) (nat cur_size))\<rparr>"

definition internal_entries :: "InternalPage \<Rightarrow> MappingType list" where
  "internal_entries p = read_cells (int_array p) 0 (nat (int_size p))"

subsection \<open>Pages by type\<close>

text \<open>
  The tag \<^verbatim>\<open>page_type_\<close> discriminates what a page buffer holds. The tree reaches its
  pages through guards of the buffer pool; the model keeps the pool as the contents of
  the pages it serves (\<open>tree_pages\<close>) and assumes a frame is there whenever the tree asks
  for one.
\<close>

datatype tree_page =
    HeaderPage page_id_t
  | LeafNode LeafPage
  | InternalNode InternalPage

fun as_leaf :: "tree_page \<Rightarrow> LeafPage option" where
  "as_leaf (LeafNode p) = Some p"
| "as_leaf _ = None"

fun as_internal :: "tree_page \<Rightarrow> InternalPage option" where
  "as_internal (InternalNode p) = Some p"
| "as_internal _ = None"

fun IsLeafPage :: "tree_page \<Rightarrow> bool" where
  "IsLeafPage (LeafNode p) = True"
| "IsLeafPage _ = False"

section \<open>Index iterator\<close>

record IndexIterator =
  iter_page_id :: page_id_t
  iter_index :: int
  iter_entry :: MappingType

definition fetch_leaf :: "(page_id_t \<rightharpoonup> tree_page) \<Rightarrow> page_id_t \<Rightarrow> LeafPage option" where
  "fetch_leaf pgs pid = Option.bind (pgs pid) as_leaf"

definition IsEnd :: "(page_id_t \<rightharpoonup> tree_page) \<Rightarrow> IndexIterator \<Rightarrow> bool option" where
  "IsEnd pgs it =
     do {
       cur_page \<leftarrow> fetch_leaf pgs (iter_page_id it);
       Some (leaf_next_page_id cur_page = INVALID_PAGE_ID \<and> iter_index it = leaf_size cur_page - 1)
     }"

text \<open>
  \<^verbatim>\<open>operator++\<close>. The fetch of the current page comes first in the code, but its result
  is not used when \<^verbatim>\<open>cur_page_id_\<close> is \<^verbatim>\<open>INVALID_PAGE_ID\<close>.
\<close>

definition iter_next :: "(page_id_t \<rightharpoonup> tree_page) \<Rightarrow> IndexIterator \<Rightarrow> IndexIterator option" where
  "iter_next pgs it =
     (if iter_page_id it = INVALID_PAGE_ID then Some it
      else do {
        cur_page \<leftarrow> fetch_leaf pgs (iter_page_id it);
        is_end \<leftarrow> IsEnd pgs it;
        if is_end then Some (it\<lparr>iter_page_id := INVALID_PAGE_ID, iter_index := -1\<rparr>)
        else if iter_index it < leaf_size cur_page - 1 then do {
          k \<leftarrow> leaf_KeyAt cur_page (iter_index it + 1);
          v \<leftarrow> leaf_ValueAt cur_page (iter_index it + 1);
          Some (it\<lparr>iter_index := iter_index it + 1, iter_entry := (k, v)\<rparr>)
        }
        else do {
          next_page \<leftarrow> fetch_leaf pgs (leaf_next_page_id cur_page);
          k \<leftarrow> leaf_KeyAt next_page 0;
          v \<leftarrow> leaf_ValueAt next_page 0;
          Some \<lparr>iter_page_id = leaf_next_page_id cur_page, iter_index = 0, iter_entry = (k, v)\<rparr>
        }
      })"

section \<open>B+Tree\<close>

record BPlusTree =
  tree_pages :: "page_id_t \<rightharpoonup> tree_page"
  pool_next_page_id :: page_id_t
  header_page_id :: page_id_t
  tree_leaf_max_size :: int
  tree_internal_max_size :: int
  leaf_default_max_size :: int

text \<open>
  The constructor writes \<^verbatim>\<open>INVALID_PAGE_ID\<close> into the header page it is given. The
  fresh tree here sits on a pool in which the header page is the only page allocated so
  far.

  \<open>leaf_default_max_size\<close> is not a member of the class. It is the default of the
  parameter \<^verbatim>\<open>max_size\<close> in the declaration of the leaf page's \<^verbatim>\<open>Init\<close>, a constant of
  the program that the missing header \<^verbatim>\<open>b_plus_tree_leaf_page.h\<close> fixes; the tree state
  carries it so that every function that creates a leaf can read it. It is the last
  argument of \<open>BPlusTree_init\<close>.
\<close>

definition BPlusTree_init :: "page_id_t \<Rightarrow> int \<Rightarrow> int \<Rightarrow> int \<Rightarrow> BPlusTree" where
  "BPlusTree_init header leaf_max internal_max leaf_default =
     \<lparr>tree_pages = [header \<mapsto> HeaderPage INVALID_PAGE_ID],
      pool_next_page_id = header + 1,
      header_page_id = header,
      tree_leaf_max_size = leaf_max,
      tree_internal_max_size = internal_max,
      leaf_default_max_size = leaf_default\<rparr>"

definition header_root :: "BPlusTree \<Rightarrow> page_id_t option" where
  "header_root t =
     (case tree_pages t (header_page_id t) of Some (HeaderPage r) \<Rightarrow> Some r | _ \<Rightarrow> None)"

definition set_root :: "BPlusTree \<Rightarrow> page_id_t \<Rightarrow> BPlusTree" where
  "set_root t r = t\<lparr>tree_pages := (tree_pages t)(header_page_id t \<mapsto> HeaderPage r)\<rparr>"

definition set_page :: "BPlusTree \<Rightarrow> page_id_t \<Rightarrow> tree_page \<Rightarrow> BPlusTree" where
  "set_page t pid pg = t\<lparr>tree_pages := (tree_pages t)(pid \<mapsto> pg)\<rparr>"

definition fetch_internal :: "(page_id_t \<rightharpoonup> tree_page) \<Rightarrow> page_id_t \<Rightarrow> InternalPage option" where
  "fetch_internal pgs pid = Option.bind (pgs pid) as_internal"

text \<open>
  \<^verbatim>\<open>NewPageGuarded\<close> followed by \<^verbatim>\<open>Init\<close>: the page id is the pool's counter. Both
  places that create a leaf call \<^verbatim>\<open>Init(leaf_max_size_)\<close>, with one argument, and the only
  \<^verbatim>\<open>Init\<close> of a leaf page is \<^verbatim>\<open>Init(page_id_t parent_page_id, int max_size)\<close>. The one
  argument is therefore the first parameter: \<^verbatim>\<open>leaf_max_size_\<close> becomes the parent page id
  of the new leaf, and \<^verbatim>\<open>max_size\<close> takes its default, \<open>leaf_default_max_size\<close>. (The
  internal pages are created with both arguments, \<^verbatim>\<open>Init(parent, internal_max_size_)\<close>.)
\<close>

definition new_leaf :: "BPlusTree \<Rightarrow> LeafPage" where
  "new_leaf t = leaf_Init (tree_leaf_max_size t) (leaf_default_max_size t) zero_leaf"

definition new_internal :: "BPlusTree \<Rightarrow> page_id_t \<Rightarrow> InternalPage" where
  "new_internal t parent = internal_Init parent (tree_internal_max_size t) zero_internal"

subsection \<open>Descent\<close>

text \<open>
  The loop \<^verbatim>\<open>while (!page->IsLeafPage())\<close> of \<^verbatim>\<open>GetValue\<close>, \<^verbatim>\<open>Insert\<close>,
  \<^verbatim>\<open>Remove\<close> and \<^verbatim>\<open>Begin(key)\<close>. \<open>ws\<close> is \<^verbatim>\<open>ctx.write_set_\<close> with its back
  first, \<open>idx\<close> is the map \<^verbatim>\<open>page_id_to_index\<close> that only \<^verbatim>\<open>Remove\<close> keeps. The
  loop need not end on a page graph with a cycle: not returning is \<open>None\<close>.
\<close>

partial_function (option) descend ::
  "(page_id_t \<rightharpoonup> tree_page) \<Rightarrow> KeyType \<Rightarrow> page_id_t \<Rightarrow> page_id_t list \<Rightarrow> (page_id_t \<rightharpoonup> int) \<Rightarrow>
   (page_id_t \<times> page_id_t list \<times> (page_id_t \<rightharpoonup> int)) option" where
  "descend pgs key pid ws idx =
     Option.bind (pgs pid) (\<lambda>page.
       if IsLeafPage page then Some (pid, ws, idx)
       else Option.bind (as_internal page) (\<lambda>ip.
              Option.bind (internal_FindValue ip key) (\<lambda>r.
                descend pgs key (fst r) (pid # ws) (idx(fst r \<mapsto> snd r)))))"

definition GetValue :: "BPlusTree \<Rightarrow> KeyType \<Rightarrow> ValueType option option" where
  "GetValue t key =
     do {
       root \<leftarrow> header_root t;
       if root = INVALID_PAGE_ID then Some None
       else do {
         r \<leftarrow> descend (tree_pages t) key root [] Map.empty;
         leaf_page \<leftarrow> fetch_leaf (tree_pages t) (fst r);
         Some (map_option fst (leaf_FindValue leaf_page key))
       }
     }"

subsection \<open>Insertion\<close>

text \<open>
  \<^verbatim>\<open>ctx.IsRootPage(id)\<close> compares with \<^verbatim>\<open>ctx.root_page_id_\<close> (the class \<^verbatim>\<open>Context\<close>
  is in the missing header). \<open>root\<close> is that field; \<open>ws\<close> is the path stack, top first.
\<close>

fun InsertInParent ::
  "BPlusTree \<Rightarrow> page_id_t \<Rightarrow> KeyType \<Rightarrow> page_id_t \<Rightarrow> page_id_t list \<Rightarrow> BPlusTree option" where
  "InsertInParent t root key new_pid [] = None"
| "InsertInParent t root key new_pid (cur_page_id # rest) =
     (if cur_page_id = root then
        do {
          let new_root_id = pool_next_page_id t;
          first_child \<leftarrow> tree_pages t cur_page_id;
          second_child \<leftarrow> tree_pages t new_pid;
          children \<leftarrow>
            (if IsLeafPage first_child then
               do {
                 c1 \<leftarrow> as_leaf first_child;
                 c2 \<leftarrow> as_leaf second_child;
                 Some (LeafNode (c1\<lparr>leaf_parent_page_id := new_root_id\<rparr>),
                       LeafNode (c2\<lparr>leaf_parent_page_id := new_root_id\<rparr>))
               }
             else
               do {
                 c1 \<leftarrow> as_internal first_child;
                 c2 \<leftarrow> as_internal second_child;
                 Some (InternalNode (c1\<lparr>int_parent_page_id := new_root_id\<rparr>),
                       InternalNode (c2\<lparr>int_parent_page_id := new_root_id\<rparr>))
               });
          r1 \<leftarrow> internal_SetValueAt (new_internal t INVALID_PAGE_ID) 0 cur_page_id;
          r2 \<leftarrow> internal_SetKeyValueAt r1 1 key new_pid;
          Some (t\<lparr>tree_pages := (tree_pages t)
                     (header_page_id t \<mapsto> HeaderPage new_root_id,
                      new_root_id \<mapsto> InternalNode (r2\<lparr>int_size := int_size r2 + 2\<rparr>),
                      cur_page_id \<mapsto> fst children,
                      new_pid \<mapsto> snd children),
                  pool_next_page_id := new_root_id + 1\<rparr>)
        }
      else
        (case rest of
           [] \<Rightarrow> None
         | parent_id # upper \<Rightarrow>
             do {
               cur_page \<leftarrow> fetch_internal (tree_pages t) parent_id;
               if int_size cur_page < int_max_size cur_page then
                 Some (set_page t parent_id (InternalNode (internal_Insert cur_page key new_pid)))
               else
                 do {
                   let new_page_id = pool_next_page_id t;
                   let new_page = new_internal t (int_parent_page_id cur_page);
                   let min_size = internal_GetMinSize cur_page;
                   let cur_size = int_size cur_page;
                   pushed_key \<leftarrow> internal_KeyAt cur_page min_size;
                   last_key \<leftarrow> internal_KeyAt cur_page (min_size - 1);
                   let is_first_case = (comparator key pushed_key > 0);
                   let is_second_case = (comparator key pushed_key < 0 \<and> comparator key last_key > 0);
                   let split =
                     (if is_first_case \<or> is_second_case then
                        (cur_page\<lparr>int_size := min_size\<rparr>,
                         internal_Insert
                           ((internal_CopyHalfFrom new_page (int_array cur_page) min_size cur_size)
                              \<lparr>int_size := cur_size - min_size\<rparr>) key new_pid,
                         if is_second_case then key else pushed_key)
                      else
                        (internal_Insert (cur_page\<lparr>int_size := min_size - 1\<rparr>) key new_pid,
                         (internal_CopyHalfFrom new_page (int_array cur_page) (min_size - 1) cur_size)
                            \<lparr>int_size := cur_size - min_size + 1\<rparr>,
                         last_key));
                   InsertInParent
                     (t\<lparr>tree_pages := (tree_pages t)
                           (parent_id \<mapsto> InternalNode (fst split),
                            new_page_id \<mapsto> InternalNode (fst (snd split))),
                        pool_next_page_id := new_page_id + 1\<rparr>)
                     root (snd (snd split)) new_page_id rest
                 }
             }))"

definition Insert :: "BPlusTree \<Rightarrow> KeyType \<Rightarrow> ValueType \<Rightarrow> (bool \<times> BPlusTree) option" where
  "Insert t key v =
     do {
       root \<leftarrow> header_root t;
       if root = INVALID_PAGE_ID then
         (let pid = pool_next_page_id t
          in Some (True,
                   t\<lparr>tree_pages := (tree_pages t)
                        (header_page_id t \<mapsto> HeaderPage pid,
                         pid \<mapsto> LeafNode (snd (leaf_Insert (new_leaf t) key v))),
                     pool_next_page_id := pid + 1\<rparr>))
       else do {
         r \<leftarrow> descend (tree_pages t) key root [] Map.empty;
         let cur_page_id = fst r;
         let ws = cur_page_id # fst (snd r);
         leaf_page \<leftarrow> fetch_leaf (tree_pages t) cur_page_id;
         if leaf_size leaf_page < leaf_max_size leaf_page - 1 then
           Some (fst (leaf_Insert leaf_page key v),
                 set_page t cur_page_id (LeafNode (snd (leaf_Insert leaf_page key v))))
         else if fst (leaf_Insert leaf_page key v) then
           do {
             let leaf1 = snd (leaf_Insert leaf_page key v);
             let min_size = leaf_GetMinSize leaf1;
             let cur_size = leaf_size leaf1;
             let new_page_id = pool_next_page_id t;
             let new_page = leaf_CopyHalfFrom (new_leaf t) (leaf_array leaf1) min_size cur_size;
             pushed_key \<leftarrow> leaf_KeyAt leaf1 min_size;
             InsertInParent
               (t\<lparr>tree_pages := (tree_pages t)
                     (cur_page_id \<mapsto> LeafNode (leaf1\<lparr>leaf_size := min_size,
                                                     leaf_next_page_id := new_page_id\<rparr>),
                      new_page_id \<mapsto> LeafNode (new_page\<lparr>leaf_size := cur_size - min_size,
                                                        leaf_next_page_id := leaf_next_page_id leaf1\<rparr>)),
                  pool_next_page_id := new_page_id + 1\<rparr>)
               root pushed_key new_page_id ws
             \<bind> (\<lambda>t'. Some (True, t'))
           }
         else Some (False, t)
       }
     }"

declare InsertInParent.simps [simp del]

subsection \<open>Deletion\<close>

text \<open>
  Modelled from the spec: \<^verbatim>\<open>DeleteInternalEntry\<close> is called by \<^verbatim>\<open>DeleteEntry\<close> but
  its definition is not among the sources. The spec gives it the same rebalance logic as
  \<^verbatim>\<open>DeleteEntry\<close>, with the internal-page variants of merge and redistribute, and
  scenario S4 adds that a root left with a single child shrinks to that child, which the
  header then points to. The function below is \<^verbatim>\<open>DeleteEntry\<close> read over internal
  pages, with that rule for the root.
\<close>

fun DeleteInternalEntry ::
  "BPlusTree \<Rightarrow> page_id_t \<Rightarrow> KeyType \<Rightarrow> page_id_t \<Rightarrow> page_id_t list \<Rightarrow> (page_id_t \<rightharpoonup> int) \<Rightarrow>
   BPlusTree option" where
  "DeleteInternalEntry t root key val [] idx = None"
| "DeleteInternalEntry t root key val (cur_id # rest) idx =
     do {
       cur_page \<leftarrow> fetch_internal (tree_pages t) cur_id;
       if \<not> fst (internal_Delete cur_page key val) then Some t
       else
         do {
           let page1 = snd (internal_Delete cur_page key val);
           let t1 = set_page t cur_id (InternalNode page1);
           if cur_id = root then
             (if int_size page1 = 1
              then do { child \<leftarrow> internal_ValueAt page1 0; Some (set_root t1 child) }
              else Some t1)
           else if int_size page1 \<ge> int_max_size page1 then Some t1
           else
             (case rest of
                [] \<Rightarrow> None
              | parent_id # upper \<Rightarrow>
                  do {
                    let index_in_parent = (case idx cur_id of Some i \<Rightarrow> i | None \<Rightarrow> 0);
                    parent_page \<leftarrow> fetch_internal (tree_pages t1) parent_id;
                    let is_last_entry = (index_in_parent = int_size parent_page - 1);
                    sibling_id \<leftarrow> internal_ValueAt parent_page
                                   (if is_last_entry then index_in_parent - 1 else index_in_parent + 1);
                    sibling \<leftarrow> fetch_internal (tree_pages t1) sibling_id;
                    up_key \<leftarrow> internal_KeyAt parent_page
                                   (if is_last_entry then index_in_parent else index_in_parent + 1);
                    let left_id = (if is_last_entry then sibling_id else cur_id);
                    let right_id = (if is_last_entry then cur_id else sibling_id);
                    let left_page = (if is_last_entry then sibling else page1);
                    let right_page = (if is_last_entry then page1 else sibling);
                    if int_size left_page + int_size right_page < int_max_size left_page then
                      DeleteInternalEntry
                        (set_page t1 left_id
                           (InternalNode (internal_Merge left_page (int_array right_page) (int_size right_page))))
                        root up_key right_id rest idx
                    else if is_last_entry then
                      do {
                        k \<leftarrow> internal_KeyAt left_page (int_size left_page - 1);
                        v \<leftarrow> internal_ValueAt left_page (int_size left_page - 1);
                        right2 \<leftarrow> internal_SetKeyValueAt (internal_ShiftData right_page 1) 0 k v;
                        k0 \<leftarrow> internal_KeyAt right2 0;
                        parent1 \<leftarrow> internal_SetKeyAt parent_page index_in_parent k0;
                        Some (t1\<lparr>tree_pages := (tree_pages t1)
                                   (left_id \<mapsto> InternalNode (left_page\<lparr>int_size := int_size left_page - 1\<rparr>),
                                    right_id \<mapsto> InternalNode right2,
                                    parent_id \<mapsto> InternalNode parent1)\<rparr>)
                      }
                    else
                      do {
                        k \<leftarrow> internal_KeyAt right_page 0;
                        v \<leftarrow> internal_ValueAt right_page 0;
                        left2 \<leftarrow> internal_SetKeyValueAt (left_page\<lparr>int_size := int_size left_page + 1\<rparr>)
                                   (int_size left_page) k v;
                        k0 \<leftarrow> internal_KeyAt (internal_ShiftData right_page (- 1)) 0;
                        parent1 \<leftarrow> internal_SetKeyAt parent_page (index_in_parent + 1) k0;
                        Some (t1\<lparr>tree_pages := (tree_pages t1)
                                   (left_id \<mapsto> InternalNode left2,
                                    right_id \<mapsto> InternalNode (internal_ShiftData right_page (- 1)),
                                    parent_id \<mapsto> InternalNode parent1)\<rparr>)
                      }
                  })
         }
     }"

declare DeleteInternalEntry.simps [simp del]

text \<open>
  \<^verbatim>\<open>BPlusTree::Remove\<close> is \<open>tree_Remove\<close> here (the replacer has a \<^verbatim>\<open>Remove\<close> of its
  own).

  \<^verbatim>\<open>DeleteEntry\<close>. The source has lost the brace that closes the first \<^verbatim>\<open>if\<close> (the
  one that handles an emptied root leaf): as the text stands the function cannot be
  compiled. The model reads the function with that brace in place after the
  \<^verbatim>\<open>return\<close>, which is what the indentation, the comment on the next statement and the
  spec describe. \<open>pick_siblings\<close> is the choice of the sibling and of the separating
  entry, \<open>leaf_rebalance\<close> is the merge and the two redistributions.
\<close>

record sibling_choice =
  sc_is_last_entry :: bool
  sc_index_in_parent :: int
  sc_parent_id :: page_id_t
  sc_parent_page :: InternalPage
  sc_left_id :: page_id_t
  sc_left_page :: LeafPage
  sc_right_id :: page_id_t
  sc_right_page :: LeafPage
  sc_up_key :: KeyType
  sc_up_value :: page_id_t

definition pick_siblings ::
  "BPlusTree \<Rightarrow> page_id_t \<Rightarrow> LeafPage \<Rightarrow> page_id_t list \<Rightarrow> (page_id_t \<rightharpoonup> int) \<Rightarrow> sibling_choice option" where
  "pick_siblings t cur_leaf_page_id cur_leaf_page rest idx =
     (case rest of
        [] \<Rightarrow> None
      | parent_id # upper \<Rightarrow>
          do {
            let index_in_parent = (case idx cur_leaf_page_id of Some i \<Rightarrow> i | None \<Rightarrow> 0);
            parent_page \<leftarrow> fetch_internal (tree_pages t) parent_id;
            let is_last_entry = (index_in_parent = int_size parent_page - 1);
            sibling_id \<leftarrow> internal_ValueAt parent_page
                           (if is_last_entry then index_in_parent - 1 else index_in_parent + 1);
            sibling \<leftarrow> fetch_leaf (tree_pages t) sibling_id;
            up_key \<leftarrow> internal_KeyAt parent_page
                           (if is_last_entry then index_in_parent else index_in_parent + 1);
            Some \<lparr>sc_is_last_entry = is_last_entry,
                  sc_index_in_parent = index_in_parent,
                  sc_parent_id = parent_id,
                  sc_parent_page = parent_page,
                  sc_left_id = (if is_last_entry then sibling_id else cur_leaf_page_id),
                  sc_left_page = (if is_last_entry then sibling else cur_leaf_page),
                  sc_right_id = (if is_last_entry then cur_leaf_page_id else sibling_id),
                  sc_right_page = (if is_last_entry then cur_leaf_page else sibling),
                  sc_up_key = up_key,
                  sc_up_value = (if is_last_entry then cur_leaf_page_id else sibling_id)\<rparr>
          })"

definition leaf_rebalance ::
  "BPlusTree \<Rightarrow> page_id_t \<Rightarrow> sibling_choice \<Rightarrow> page_id_t list \<Rightarrow> (page_id_t \<rightharpoonup> int) \<Rightarrow> BPlusTree option" where
  "leaf_rebalance t root sc rest idx =
     (let left_page = sc_left_page sc; right_page = sc_right_page sc
      in if leaf_size left_page + leaf_size right_page < leaf_max_size left_page then
           DeleteInternalEntry
             (set_page t (sc_left_id sc)
                (LeafNode ((leaf_Merge left_page (leaf_array right_page) (leaf_size right_page))
                             \<lparr>leaf_next_page_id := leaf_next_page_id right_page\<rparr>)))
             root (sc_up_key sc) (sc_up_value sc) rest idx
         else if sc_is_last_entry sc then
           do {
             k \<leftarrow> leaf_KeyAt left_page (leaf_size left_page - 1);
             v \<leftarrow> leaf_ValueAt left_page (leaf_size left_page - 1);
             right2 \<leftarrow> leaf_SetKeyValueAt (leaf_ShiftData right_page 1) 0 k v;
             k0 \<leftarrow> leaf_KeyAt right2 0;
             parent1 \<leftarrow> internal_SetKeyAt (sc_parent_page sc) (sc_index_in_parent sc) k0;
             Some (t\<lparr>tree_pages := (tree_pages t)
                       (sc_left_id sc \<mapsto> LeafNode (left_page\<lparr>leaf_size := leaf_size left_page - 1\<rparr>),
                        sc_right_id sc \<mapsto> LeafNode right2,
                        sc_parent_id sc \<mapsto> InternalNode parent1)\<rparr>)
           }
         else
           do {
             k \<leftarrow> leaf_KeyAt right_page 0;
             v \<leftarrow> leaf_ValueAt right_page 0;
             left2 \<leftarrow> leaf_SetKeyValueAt (left_page\<lparr>leaf_size := leaf_size left_page + 1\<rparr>)
                        (leaf_size left_page) k v;
             k0 \<leftarrow> leaf_KeyAt (leaf_ShiftData right_page (- 1)) 0;
             parent1 \<leftarrow> internal_SetKeyAt (sc_parent_page sc) (sc_index_in_parent sc + 1) k0;
             Some (t\<lparr>tree_pages := (tree_pages t)
                       (sc_left_id sc \<mapsto> LeafNode left2,
                        sc_right_id sc \<mapsto> LeafNode (leaf_ShiftData right_page (- 1)),
                        sc_parent_id sc \<mapsto> InternalNode parent1)\<rparr>)
           })"

definition DeleteEntry ::
  "BPlusTree \<Rightarrow> page_id_t \<Rightarrow> KeyType \<Rightarrow> ValueType \<Rightarrow> page_id_t list \<Rightarrow> (page_id_t \<rightharpoonup> int) \<Rightarrow>
   BPlusTree option" where
  "DeleteEntry t root key val ws idx =
     (case ws of
        [] \<Rightarrow> None
      | cur_leaf_page_id # rest \<Rightarrow>
          do {
            cur_leaf_page \<leftarrow> fetch_leaf (tree_pages t) cur_leaf_page_id;
            if \<not> fst (leaf_Delete cur_leaf_page key val) then Some t
            else
              do {
                let leaf1 = snd (leaf_Delete cur_leaf_page key val);
                let t1 = set_page t cur_leaf_page_id (LeafNode leaf1);
                if cur_leaf_page_id = root \<and> leaf_size leaf1 = 0 then Some (set_root t1 INVALID_PAGE_ID)
                else if cur_leaf_page_id = root then Some t1
                else if leaf_size leaf1 \<ge> leaf_max_size leaf1 then Some t1
                else
                  do {
                    sc \<leftarrow> pick_siblings t1 cur_leaf_page_id leaf1 rest idx;
                    leaf_rebalance t1 root sc rest idx
                  }
              }
          })"

definition tree_Remove :: "BPlusTree \<Rightarrow> KeyType \<Rightarrow> BPlusTree option" where
  "tree_Remove t key =
     do {
       root \<leftarrow> header_root t;
       if root = INVALID_PAGE_ID then Some t
       else do {
         r \<leftarrow> descend (tree_pages t) key root [] Map.empty;
         leaf_page \<leftarrow> fetch_leaf (tree_pages t) (fst r);
         (case leaf_FindValue leaf_page key of
            None \<Rightarrow> Some t
          | Some res \<Rightarrow> DeleteEntry t root key (fst res) (fst r # fst (snd r)) (snd (snd r)))
       }
     }"

subsection \<open>The trees of scenarios S3 and S4\<close>

text \<open>
  Leaf maximum 4, internal maximum 5, header page 0; the value stored with key \<open>k\<close> is \<open>k\<close>.
  The default of \<^verbatim>\<open>max_size\<close> is taken to be 4 as well, so that the leaves of these trees
  have the maximum size 4 that the scenarios give them.
\<close>

definition insert_key :: "KeyType \<Rightarrow> BPlusTree \<Rightarrow> BPlusTree" where
  "insert_key k t = snd (the (Insert t k k))"

definition S3_after_4 :: BPlusTree where
  "S3_after_4 = fold insert_key [1, 2, 3, 4] (BPlusTree_init 0 4 5 4)"

definition S3_tree :: BPlusTree where
  "S3_tree = insert_key 5 S3_after_4"

definition S4_after_5 :: BPlusTree where
  "S4_after_5 = the (tree_Remove S3_tree 5)"

definition S4_tree :: BPlusTree where
  "S4_tree = the (tree_Remove S4_after_5 4)"

definition S3_after_3 :: BPlusTree where
  "S3_after_3 = fold insert_key [1, 2, 3] (BPlusTree_init 0 4 5 4)"

text \<open>The tree that holds 1, 2, 3 and the key \<open>-1\<close>, inserted in that order.\<close>

definition S3_negative :: BPlusTree where
  "S3_negative = insert_key (- 1) S3_after_3"

subsection \<open>The slot of an internal page's FindValue\<close>

text \<open>
  The slot index \<^verbatim>\<open>std::distance(array_, res)\<close> that \<^verbatim>\<open>FindValue\<close> of an internal page
  writes through \<^verbatim>\<open>child_page_index\<close>, after \<^verbatim>\<open>res = std::prev(res)\<close>.
\<close>

definition internal_FindValue_slot :: "InternalPage \<Rightarrow> KeyType \<Rightarrow> int" where
  "internal_FindValue_slot p key =
     lower_bound (int_array p) (\<lambda>e. comparator (fst e) key \<le> 0) 0 (int_size p) - 1"

text \<open>
  The slot as the specification words it: the largest index \<open>i\<close> in \<open>[0, n - 1]\<close> such that
  \<open>i = 0\<close> or \<^verbatim>\<open>KeyAt(i)\<close> is at most the key.
\<close>

definition spec_FindValue_slot :: "InternalPage \<Rightarrow> KeyType \<Rightarrow> int" where
  "spec_FindValue_slot p key =
     last (filter (\<lambda>i. i = 0 \<or> comparator (fst (cell (int_array p) (nat i))) key \<le> 0)
             (map int [0..<nat (int_size p)]))"

chapter \<open>Verified properties\<close>

section \<open>LRU-K replacer: eviction order\<close>

lemmas replacer_defs =
  LRUKReplacer_init_def deref_def GetEvictable_def GetFrameId_def GetKDistance_def
  size_t_dec_def size_t_inc_def RemoveNode_def Evict_def InsertKNode_def as_int32_def
  RecordAccess_def SetEvictable_def Remove_def Size_def new_LRUKNode_def InsertTimeStamp_def
  GetNumOfReferences_def UpdateKDistance_def access_evictable_def front_ts_def

lemma rscan_None: "rscan ev xs = None \<longleftrightarrow> (\<forall>x\<in>set xs. \<not> ev x)"
  by (induction xs) (auto split: option.splits)

lemma rscan_split:
  "(\<forall>x\<in>set pre. \<not> ev x) \<Longrightarrow> ev a \<Longrightarrow> rscan ev (pre @ a # post) = Some (a, pre @ post)"
  by (induction pre) auto

lemma RemoveNode_hit:
  assumes "lst = pre @ a # post" "GetEvictable r a" "\<forall>b\<in>set post. \<not> GetEvictable r b"
  shows "RemoveNode r lst mp =
           (Some (GetFrameId r a), pre @ post, mp(GetFrameId r a := None), size_t_dec (curr_size r))"
proof -
  have "rscan (GetEvictable r) (rev post @ a # rev pre) = Some (a, rev post @ rev pre)"
    using assms by (intro rscan_split) auto
  then show ?thesis using assms by (simp add: RemoveNode_def)
qed

lemma RemoveNode_miss:
  assumes "\<forall>b\<in>set lst. \<not> GetEvictable r b"
  shows "RemoveNode r lst mp = (None, lst, mp, curr_size r)"
proof -
  have "rscan (GetEvictable r) (rev lst) = None"
    using assms by (simp add: rscan_None)
  then show ?thesis by (simp add: RemoveNode_def)
qed

lemma Evict_default:
  assumes "curr_size r \<noteq> 0" "default_list r = pre @ a # post" "GetEvictable r a"
    "\<forall>b\<in>set post. \<not> GetEvictable r b"
  shows "Evict r = (Some (GetFrameId r a),
            r\<lparr>default_list := pre @ post, default_map := (default_map r)(GetFrameId r a := None),
              curr_size := curr_size r - 1\<rparr>)"
  using assms RemoveNode_hit[OF assms(2,3,4), of "default_map r"]
  by (simp add: Evict_def size_t_dec_def)

lemma Evict_k:
  assumes "curr_size r \<noteq> 0" "\<forall>b\<in>set (default_list r). \<not> GetEvictable r b"
     "k_list r = pre @ a # post" "GetEvictable r a" "\<forall>b\<in>set post. \<not> GetEvictable r b"
  shows "Evict r = (Some (GetFrameId r a),
            r\<lparr>k_list := pre @ post, k_map := (k_map r)(GetFrameId r a := None),
              curr_size := curr_size r - 1\<rparr>)"
proof -
  have d: "RemoveNode r (default_list r) (default_map r) =
             (None, default_list r, default_map r, curr_size r)"
    using assms(2) by (rule RemoveNode_miss)
  show ?thesis
    using assms(1,3) d RemoveNode_hit[OF assms(3,4,5), of "k_map r"]
    by (cases "default_list r = []") (simp_all add: Evict_def size_t_dec_def)
qed

lemma evictable_exists:
  assumes "curr_size r = evictable_count r" "curr_size r \<noteq> 0"
  shows "(\<exists>pre a post. default_list r = pre @ a # post \<and> GetEvictable r a \<and>
             (\<forall>b\<in>set post. \<not> GetEvictable r b)) \<or>
         ((\<forall>b\<in>set (default_list r). \<not> GetEvictable r b) \<and>
          (\<exists>pre a post. k_list r = pre @ a # post \<and> GetEvictable r a \<and>
             (\<forall>b\<in>set post. \<not> GetEvictable r b)))"
proof -
  have "filter (GetEvictable r) (default_list r @ k_list r) \<noteq> []"
    using assms by (auto simp: evictable_count_def)
  then have ex: "(\<exists>x\<in>set (default_list r). GetEvictable r x) \<or> (\<exists>x\<in>set (k_list r). GetEvictable r x)"
    by (auto simp: filter_empty_conv)
  show ?thesis
  proof (cases "\<exists>x\<in>set (default_list r). GetEvictable r x")
    case True
    from split_list_last_prop[OF True] show ?thesis by blast
  next
    case False
    with ex have "\<exists>x\<in>set (k_list r). GetEvictable r x" by blast
    from split_list_last_prop[OF this] False show ?thesis by blast
  qed
qed

lemma Evict_none_iff:
  assumes "curr_size r = evictable_count r"
  shows "fst (Evict r) = None \<longleftrightarrow> curr_size r = 0"
proof
  assume "curr_size r = 0" then show "fst (Evict r) = None" by (simp add: Evict_def)
next
  assume n: "fst (Evict r) = None"
  show "curr_size r = 0"
  proof (rule ccontr)
    assume nz: "curr_size r \<noteq> 0"
    from evictable_exists[OF assms nz] show False
    proof (elim disjE exE conjE)
      fix pre a post
      assume "default_list r = pre @ a # post" "GetEvictable r a" "\<forall>b\<in>set post. \<not> GetEvictable r b"
      from Evict_default[OF nz this] n show False by simp
    next
      fix pre a post
      assume "\<forall>b\<in>set (default_list r). \<not> GetEvictable r b"
        "k_list r = pre @ a # post" "GetEvictable r a" "\<forall>b\<in>set post. \<not> GetEvictable r b"
      from Evict_k[OF nz this] n show False by simp
    qed
  qed
qed

lemma insert_before_eq: "insert_before adv a xs = takeWhile adv xs @ a # dropWhile adv xs"
  by (induction xs) auto

lemma k_list_InsertKNode:
  "k_list (InsertKNode r a) =
     takeWhile (\<lambda>b. GetKDistance r a < GetKDistance r b) (k_list r) @ a #
     dropWhile (\<lambda>b. GetKDistance r a < GetKDistance r b) (k_list r)"
  by (simp add: InsertKNode_def insert_before_eq)

lemma GetKDistance_InsertKNode: "GetKDistance (InsertKNode r a) = GetKDistance r"
  by (simp add: InsertKNode_def GetKDistance_def deref_def fun_eq_iff)

lemma sorted_dropWhile_le:
  assumes "sorted_wrt (\<lambda>x y. f x \<ge> f y) xs" "b \<in> set (dropWhile (\<lambda>b. (v::nat) < f b) xs)"
  shows "f b \<le> v"
  using assms
proof (induction xs)
  case Nil then show ?case by simp
next
  case (Cons x xs)
  then show ?case by (cases "v < f x") (auto simp: not_less)
qed

lemma InsertKNode_position:
  assumes "kd_sorted r"
  shows "\<exists>pre post. k_list (InsertKNode r a) = pre @ a # post \<and> pre @ post = k_list r \<and>
            (\<forall>b\<in>set pre. GetKDistance r a < GetKDistance r b) \<and>
            (\<forall>b\<in>set post. GetKDistance r b \<le> GetKDistance r a)"
proof -
  let ?P = "\<lambda>b. GetKDistance r a < GetKDistance r b"
  have "\<forall>b\<in>set (takeWhile ?P (k_list r)). ?P b" by (auto dest: set_takeWhileD)
  moreover have "\<forall>b\<in>set (dropWhile ?P (k_list r)). GetKDistance r b \<le> GetKDistance r a"
    using sorted_dropWhile_le[of "GetKDistance r" "k_list r" _ "GetKDistance r a"] assms
    by (auto simp: kd_sorted_def)
  ultimately show ?thesis
    using k_list_InsertKNode[of r a] by (metis takeWhile_dropWhile_id)
qed

lemma InsertKNode_sorted:
  assumes "kd_sorted r"
  shows "kd_sorted (InsertKNode r a)"
proof -
  from InsertKNode_position[OF assms, of a] obtain pre post where
    p: "k_list (InsertKNode r a) = pre @ a # post" "pre @ post = k_list r"
       "\<forall>b\<in>set pre. GetKDistance r a < GetKDistance r b"
       "\<forall>b\<in>set post. GetKDistance r b \<le> GetKDistance r a" by blast
  have "sorted_wrt (\<lambda>x y. GetKDistance r x \<ge> GetKDistance r y) (pre @ post)"
    using assms p(2) by (simp add: kd_sorted_def)
  then have "sorted_wrt (\<lambda>x y. GetKDistance r x \<ge> GetKDistance r y) (pre @ a # post)"
    using p(3,4) by (auto simp: sorted_wrt_append less_imp_le)
  then show ?thesis by (simp add: kd_sorted_def GetKDistance_InsertKNode p(1))
qed

lemma sorted_victim_min:
  assumes "kd_sorted r" "k_list r = pre @ a # post" "\<forall>b\<in>set post. \<not> GetEvictable r b"
    "b \<in> set (k_list r)" "GetEvictable r b"
  shows "GetKDistance r a \<le> GetKDistance r b"
  using assms by (auto simp: kd_sorted_def sorted_wrt_append)

text \<open>
  Claim C3. In a replacer whose \<^verbatim>\<open>curr_size_\<close> counts its evictable nodes, \<^verbatim>\<open>Evict\<close>
  returns none exactly when \<^verbatim>\<open>curr_size_\<close> is 0. Otherwise the victim is the evictable
  node nearest the back of the default list; only when the default list has no evictable
  node is it the evictable node nearest the back of the k-list. The victim leaves its list
  and its map, and \<^verbatim>\<open>curr_size_\<close> drops by one. With the k-list ordered by stored
  k-distance the k-list victim has the smallest k-distance among the evictable k-list nodes,
  and since \<^verbatim>\<open>InsertKNode\<close> puts a node in front of every node whose k-distance is not
  larger, among equal k-distances the node inserted first is evicted first.
\<close>

theorem Evict_order:
  assumes "curr_size r = evictable_count r"
  shows "(fst (Evict r) = None \<longleftrightarrow> curr_size r = 0) \<and>
    (curr_size r \<noteq> 0 \<longrightarrow>
       (\<exists>pre a post. default_list r = pre @ a # post \<and> GetEvictable r a \<and>
             (\<forall>b\<in>set post. \<not> GetEvictable r b)) \<or>
       ((\<forall>b\<in>set (default_list r). \<not> GetEvictable r b) \<and>
        (\<exists>pre a post. k_list r = pre @ a # post \<and> GetEvictable r a \<and>
             (\<forall>b\<in>set post. \<not> GetEvictable r b)))) \<and>
    (\<forall>pre a post.
       default_list r = pre @ a # post \<and> GetEvictable r a \<and> (\<forall>b\<in>set post. \<not> GetEvictable r b) \<longrightarrow>
       Evict r = (Some (GetFrameId r a),
                  r\<lparr>default_list := pre @ post,
                    default_map := (default_map r)(GetFrameId r a := None),
                    curr_size := curr_size r - 1\<rparr>) \<and>
       curr_size r \<noteq> 0) \<and>
    (\<forall>pre a post.
       (\<forall>b\<in>set (default_list r). \<not> GetEvictable r b) \<and>
       k_list r = pre @ a # post \<and> GetEvictable r a \<and> (\<forall>b\<in>set post. \<not> GetEvictable r b) \<longrightarrow>
       Evict r = (Some (GetFrameId r a),
                  r\<lparr>k_list := pre @ post,
                    k_map := (k_map r)(GetFrameId r a := None),
                    curr_size := curr_size r - 1\<rparr>) \<and>
       curr_size r \<noteq> 0 \<and>
       (kd_sorted r \<longrightarrow>
          (\<forall>b\<in>set (k_list r). GetEvictable r b \<longrightarrow> GetKDistance r a \<le> GetKDistance r b))) \<and>
    (\<forall>a. kd_sorted r \<longrightarrow>
       kd_sorted (InsertKNode r a) \<and>
       (\<exists>pre post. k_list (InsertKNode r a) = pre @ a # post \<and> pre @ post = k_list r \<and>
            (\<forall>b\<in>set pre. GetKDistance r a < GetKDistance r b) \<and>
            (\<forall>b\<in>set post. GetKDistance r b \<le> GetKDistance r a)))"
proof (intro conjI allI impI)
  show "fst (Evict r) = None \<longleftrightarrow> curr_size r = 0"
    using assms by (rule Evict_none_iff)
next
  assume "curr_size r \<noteq> 0"
  with assms show "(\<exists>pre a post. default_list r = pre @ a # post \<and> GetEvictable r a \<and>
             (\<forall>b\<in>set post. \<not> GetEvictable r b)) \<or>
       ((\<forall>b\<in>set (default_list r). \<not> GetEvictable r b) \<and>
        (\<exists>pre a post. k_list r = pre @ a # post \<and> GetEvictable r a \<and>
             (\<forall>b\<in>set post. \<not> GetEvictable r b)))"
    by (rule evictable_exists)
next
  fix pre a post
  assume h: "default_list r = pre @ a # post \<and> GetEvictable r a \<and> (\<forall>b\<in>set post. \<not> GetEvictable r b)"
  then have "a \<in> set (filter (GetEvictable r) (default_list r @ k_list r))" by simp
  then have "evictable_count r \<noteq> 0"
    unfolding evictable_count_def by (metis length_0_conv empty_iff list.set(1))
  then show nz: "curr_size r \<noteq> 0" using assms by simp
  from h Evict_default[OF nz, of pre a post]
  show "Evict r = (Some (GetFrameId r a),
                  r\<lparr>default_list := pre @ post,
                    default_map := (default_map r)(GetFrameId r a := None),
                    curr_size := curr_size r - 1\<rparr>)" by blast
next
  fix pre a post
  assume h: "(\<forall>b\<in>set (default_list r). \<not> GetEvictable r b) \<and>
       k_list r = pre @ a # post \<and> GetEvictable r a \<and> (\<forall>b\<in>set post. \<not> GetEvictable r b)"
  then have "a \<in> set (filter (GetEvictable r) (default_list r @ k_list r))" by simp
  then have "evictable_count r \<noteq> 0"
    unfolding evictable_count_def by (metis length_0_conv empty_iff list.set(1))
  then show nz: "curr_size r \<noteq> 0" using assms by simp
  from h Evict_k[OF nz, of pre a post]
  show "Evict r = (Some (GetFrameId r a),
                  r\<lparr>k_list := pre @ post,
                    k_map := (k_map r)(GetFrameId r a := None),
                    curr_size := curr_size r - 1\<rparr>)" by blast
  show "\<forall>b\<in>set (k_list r). GetEvictable r b \<longrightarrow> GetKDistance r a \<le> GetKDistance r b"
    if "kd_sorted r"
    using that h sorted_victim_min[of r pre a post] by blast
next
  fix a
  assume s: "kd_sorted r"
  then show "kd_sorted (InsertKNode r a)" by (rule InsertKNode_sorted)
  from s show "\<exists>pre post. k_list (InsertKNode r a) = pre @ a # post \<and> pre @ post = k_list r \<and>
            (\<forall>b\<in>set pre. GetKDistance r a < GetKDistance r b) \<and>
            (\<forall>b\<in>set post. GetKDistance r b \<le> GetKDistance r a)"
    by (rule InsertKNode_position)
qed

theorem Evict_order_S6:
  "curr_size S6_replacer = evictable_count S6_replacer \<and>
   fst (Evict S6_replacer) = Some 4 \<and>
   fst (Evict (snd (Evict S6_replacer))) = Some 3 \<and>
   curr_size S6_replacer = 4 \<and>
   curr_size (snd (Evict S6_replacer)) = 3 \<and>
   kd_sorted S6_replacer \<and>
   \<not> (fst (Evict S6_replacer) = None)"
proof -
  have inv: "curr_size S6_replacer = evictable_count S6_replacer"
    by (simp add: S6_replacer_def replacer_defs evictable_count_def Let_def)
  have nz: "curr_size S6_replacer = 4"
    by (simp add: S6_replacer_def replacer_defs Let_def)
  have e1: "fst (Evict S6_replacer) = Some 4"
    by (simp add: S6_replacer_def replacer_defs Let_def)
  have e2: "fst (Evict (snd (Evict S6_replacer))) = Some 3"
    by (simp add: S6_replacer_def replacer_defs Let_def)
  have c2: "curr_size (snd (Evict S6_replacer)) = 3"
    by (simp add: S6_replacer_def replacer_defs Let_def)
  have srt: "kd_sorted S6_replacer"
    by (simp add: S6_replacer_def replacer_defs kd_sorted_def Let_def)
  from Evict_order[OF inv] nz have "\<not> (fst (Evict S6_replacer) = None)" by simp
  with inv nz e1 e2 c2 srt show ?thesis by blast
qed

section \<open>Evaluating concrete runs\<close>

lemma replicate_numeral_eval: "replicate (numeral k) x = x # replicate (pred_numeral k) x"
  by (simp add: numeral_eq_Suc)

lemma list_update_numeral_eval: "(x # xs)[numeral k := v] = x # xs[pred_numeral k := v]"
  by (simp add: numeral_eq_Suc)

lemma list_update_one_eval: "(x # xs)[1 := v] = x # xs[0 := v]"
  by simp

lemmas eval_kit =
  replicate_numeral_eval list_update_numeral_eval list_update_one_eval upt_conv_Cons Let_def

lemmas bpm_defs =
  BufferPoolManager_init_def frame_ok_def frame_def set_frame_def disk_WritePage_def
  disk_read_def bpm_DeallocatePage_def AllocatePage_def evict_frame_def acquire_frame_def
  install_page_def NewPage_def FetchPage_def UnpinPage_def FlushPage_def DeletePage_def
  new_Page_def ResetMemory_def INVALID_PAGE_ID_def

lemma S2_pool_eval:
  "S2_pool =
     \<lparr>bytes_per_page = 4, pool_size = 2,
      pages = [\<lparr>page_data = [0, 0, 0, 0], page_id = 0, pin_count = 1, is_dirty = False\<rparr>,
               \<lparr>page_data = [0, 0, 0, 0], page_id = 1, pin_count = 1, is_dirty = False\<rparr>],
      page_table = [0 \<mapsto> 0, 1 \<mapsto> 1], free_list = [],
      replacer =
        \<lparr>node_heap =
           [0 \<mapsto> \<lparr>node_history = [0], node_k = 2, node_fid = 0,
                   node_evictable = False, node_k_distance = 0\<rparr>,
            Suc 0 \<mapsto> \<lparr>node_history = [Suc 0], node_k = 2, node_fid = 1,
                   node_evictable = False, node_k_distance = 0\<rparr>],
         next_ref = Suc (Suc 0), default_list = [Suc 0, 0],
         default_map = [0 \<mapsto> 0, 1 \<mapsto> Suc 0], k_list = [], k_map = Map.empty,
         curr_size = 0, current_timestamp = Suc (Suc 0), replacer_size = 2, replacer_k = 2\<rparr>,
      next_page_id = 0, disk_pages = Map.empty, disk_log = [ReadPage 0, ReadPage 1]\<rparr>"
  by (simp add: S2_pool_def bpm_defs replacer_defs eval_kit)

lemma pinned_pool_eval:
  "pinned_pool =
     \<lparr>bytes_per_page = 4, pool_size = Suc 0,
      pages = [\<lparr>page_data = [0, 0, 0, 0], page_id = 0, pin_count = 1, is_dirty = False\<rparr>],
      page_table = [0 \<mapsto> 0], free_list = [],
      replacer =
        \<lparr>node_heap =
           [0 \<mapsto> \<lparr>node_history = [0], node_k = 2, node_fid = 0,
                   node_evictable = False, node_k_distance = 0\<rparr>],
         next_ref = Suc 0, default_list = [0], default_map = [0 \<mapsto> 0],
         k_list = [], k_map = Map.empty, curr_size = 0,
         current_timestamp = Suc 0, replacer_size = Suc 0, replacer_k = 2\<rparr>,
      next_page_id = 1, disk_pages = Map.empty, disk_log = []\<rparr>"
  by (simp add: pinned_pool_def bpm_defs replacer_defs eval_kit)

lemma unpinned_pool_eval:
  "unpinned_pool =
     \<lparr>bytes_per_page = 4, pool_size = Suc 0,
      pages = [\<lparr>page_data = [0, 0, 0, 0], page_id = 0, pin_count = 0, is_dirty = True\<rparr>],
      page_table = [0 \<mapsto> 0], free_list = [],
      replacer =
        \<lparr>node_heap =
           [0 \<mapsto> \<lparr>node_history = [0], node_k = 2, node_fid = 0,
                   node_evictable = True, node_k_distance = 0\<rparr>],
         next_ref = Suc 0, default_list = [0], default_map = [0 \<mapsto> 0],
         k_list = [], k_map = Map.empty, curr_size = Suc 0,
         current_timestamp = Suc 0, replacer_size = Suc 0, replacer_k = 2\<rparr>,
      next_page_id = 1, disk_pages = Map.empty, disk_log = []\<rparr>"
  by (simp add: unpinned_pool_def pinned_pool_eval bpm_defs replacer_defs eval_kit)

section \<open>LRU-K replacer: the range check of RecordAccess\<close>

lemma RecordAccess_rejects_above:
  "frame_id > as_int32 (replacer_size r) \<Longrightarrow> RecordAccess kd r frame_id = r"
  by (simp add: RecordAccess_def)

text \<open>
  Claim C9 says that \<^verbatim>\<open>RecordAccess\<close> rejects every frame id greater than or equal to
  \<^verbatim>\<open>replacer_size_\<close>. The guard in the code is a strict \<^verbatim>\<open>>\<close>:
  \<open>RecordAccess_rejects_above\<close> is all it rejects. On a fresh replacer for seven frames
  the call with frame id 7 creates a node for frame 7 at the front of the default list,
  enters it into the default map and advances the timestamp.
\<close>

theorem RecordAccess_at_replacer_size:
  "default_list (RecordAccess kd (LRUKReplacer_init 7 2) 7) = [0] \<and>
   default_map (RecordAccess kd (LRUKReplacer_init 7 2) 7) 7 = Some 0 \<and>
   node_fid (deref (RecordAccess kd (LRUKReplacer_init 7 2) 7) 0) = 7 \<and>
   current_timestamp (RecordAccess kd (LRUKReplacer_init 7 2) 7) = 1 \<and>
   RecordAccess kd (LRUKReplacer_init 7 2) 7 \<noteq> LRUKReplacer_init 7 2"
proof -
  have 1: "default_list (RecordAccess kd (LRUKReplacer_init 7 2) 7) = [0]"
    by (simp add: replacer_defs Let_def)
  have 2: "default_map (RecordAccess kd (LRUKReplacer_init 7 2) 7) 7 = Some 0"
    by (simp add: replacer_defs Let_def)
  have 3: "node_fid (deref (RecordAccess kd (LRUKReplacer_init 7 2) 7) 0) = 7"
    by (simp add: replacer_defs Let_def)
  have 4: "current_timestamp (RecordAccess kd (LRUKReplacer_init 7 2) 7) = 1"
    by (simp add: replacer_defs Let_def)
  have "default_list (LRUKReplacer_init 7 2) = []" by (simp add: replacer_defs)
  with 1 have 5: "RecordAccess kd (LRUKReplacer_init 7 2) 7 \<noteq> LRUKReplacer_init 7 2" by auto
  from 1 2 3 4 5 show ?thesis by blast
qed

section \<open>Buffer pool manager\<close>

text \<open>
  Claim C10. With an empty free list and a replacer that reports no evictable frame,
  \<^verbatim>\<open>NewPage\<close> returns \<^verbatim>\<open>nullptr\<close> and so does \<^verbatim>\<open>FetchPage\<close> on a page that is not
  resident; the pool afterwards is the pool before (page table, free list, frames,
  replacer, page-id counter, the disk's contents and the log of disk calls).
\<close>

theorem capacity_failure_atomic:
  assumes "free_list s = []" "Size (replacer s) = 0"
  shows "NewPage kd s = Inr (None, s) \<and>
         (page_table s pid = None \<longrightarrow> FetchPage kd s pid = Inr (None, s))"
  using assms by (simp add: NewPage_def FetchPage_def)

theorem capacity_failure_atomic_S2:
  "free_list S2_pool = [] \<and> Size (replacer S2_pool) = 0 \<and> page_table S2_pool 5 = None \<and>
   NewPage front_ts S2_pool = Inr (None, S2_pool) \<and>
   FetchPage front_ts S2_pool 5 = Inr (None, S2_pool)"
proof -
  have f: "free_list S2_pool = []"
    by (simp add: S2_pool_eval)
  have z: "Size (replacer S2_pool) = 0"
    by (simp add: S2_pool_eval Size_def)
  have p: "page_table S2_pool 5 = None"
    by (simp add: S2_pool_eval)
  from capacity_failure_atomic[OF f z, of front_ts 5] f z p show ?thesis by simp
qed

lemma SetEvictable_tracked:
  assumes "tracked r f"
  shows "\<exists>r'. SetEvictable r f b = Inr r' \<and> (frame_evictable r' f \<longleftrightarrow> b) \<and>
              default_map r' = default_map r \<and> k_map r' = k_map r \<and>
              default_list r' = default_list r \<and> k_list r' = k_list r"
proof (cases "default_map r f")
  case None
  with assms obtain a where "k_map r f = Some a" by (auto simp: tracked_def)
  with None show ?thesis
    by (simp add: SetEvictable_def frame_evictable_def tracked_def node_of_def GetEvictable_def
          deref_def Let_def)
next
  case (Some a)
  then show ?thesis
    by (simp add: SetEvictable_def frame_evictable_def tracked_def node_of_def GetEvictable_def
          deref_def Let_def)
qed

text \<open>
  Claim C7. \<^verbatim>\<open>UnpinPage\<close> returns false and leaves the pool as it is when the page is
  not resident or its pin count is not positive. Otherwise it returns true, the frame's
  pin count is one less, its dirty flag is the old flag or \<^verbatim>\<open>is_dirty\<close>, nothing
  else in the pool changes but the replacer, and the replacer changes exactly when the pin
  count has reached zero: then the frame's node is evictable. (The frame of a resident
  page is a frame of the pool and has a node in the replacer.)
\<close>

theorem UnpinPage_spec:
  "(page_table s pid = None \<longrightarrow> UnpinPage s pid d = Inr (False, s)) \<and>
   (\<forall>f. page_table s pid = Some f \<and> frame_ok s f \<and> pin_count (frame s f) \<le> 0 \<longrightarrow>
        UnpinPage s pid d = Inr (False, s)) \<and>
   (\<forall>f. page_table s pid = Some f \<and> frame_ok s f \<and> pin_count (frame s f) > 0 \<and>
        tracked (replacer s) f \<longrightarrow>
        (\<exists>r'. UnpinPage s pid d =
                Inr (True, s\<lparr>pages := (pages s)[nat f := (frame s f)
                                  \<lparr>pin_count := pin_count (frame s f) - 1,
                                   is_dirty := (d \<or> is_dirty (frame s f))\<rparr>],
                              replacer := r'\<rparr>) \<and>
              (pin_count (frame s f) = 1 \<longrightarrow>
                 SetEvictable (replacer s) f True = Inr r' \<and> frame_evictable r' f) \<and>
              (pin_count (frame s f) \<noteq> 1 \<longrightarrow> r' = replacer s)))"
proof (intro conjI allI impI)
  show "UnpinPage s pid d = Inr (False, s)" if "page_table s pid = None"
    using that by (simp add: UnpinPage_def)
next
  fix f
  assume "page_table s pid = Some f \<and> frame_ok s f \<and> pin_count (frame s f) \<le> 0"
  then show "UnpinPage s pid d = Inr (False, s)"
    by (simp add: UnpinPage_def)
next
  fix f
  assume h: "page_table s pid = Some f \<and> frame_ok s f \<and> pin_count (frame s f) > 0 \<and>
        tracked (replacer s) f"
  let ?pg = "(frame s f)\<lparr>pin_count := pin_count (frame s f) - 1,
                         is_dirty := (d \<or> is_dirty (frame s f))\<rparr>"
  let ?s1 = "s\<lparr>pages := (pages s)[nat f := ?pg]\<rparr>"
  show "\<exists>r'. UnpinPage s pid d = Inr (True, s\<lparr>pages := (pages s)[nat f := ?pg], replacer := r'\<rparr>) \<and>
              (pin_count (frame s f) = 1 \<longrightarrow>
                 SetEvictable (replacer s) f True = Inr r' \<and> frame_evictable r' f) \<and>
              (pin_count (frame s f) \<noteq> 1 \<longrightarrow> r' = replacer s)"
  proof (cases "pin_count (frame s f) = 1")
    case False
    with h have "UnpinPage s pid d = Inr (True, ?s1)"
      by (simp add: UnpinPage_def Let_def set_frame_def)
    moreover have "?s1 = s\<lparr>pages := (pages s)[nat f := ?pg], replacer := replacer s\<rparr>" by simp
    ultimately show ?thesis using False by metis
  next
    case True
    from h SetEvictable_tracked[of "replacer s" f True]
    obtain r' where r': "SetEvictable (replacer s) f True = Inr r'" and ev: "frame_evictable r' f"
      by blast
    from h True r' have "UnpinPage s pid d = Inr (True, ?s1\<lparr>replacer := r'\<rparr>)"
      by (simp add: UnpinPage_def Let_def set_frame_def)
    then show ?thesis using True r' ev by auto
  qed
qed

theorem UnpinPage_spec_pools:
  "page_table pinned_pool 7 = None \<and>
   UnpinPage pinned_pool 7 True = Inr (False, pinned_pool) \<and>
   page_table unpinned_pool 0 = Some 0 \<and> frame_ok unpinned_pool 0 \<and>
   pin_count (frame unpinned_pool 0) \<le> 0 \<and>
   UnpinPage unpinned_pool 0 False = Inr (False, unpinned_pool) \<and>
   page_table pinned_pool 0 = Some 0 \<and> frame_ok pinned_pool 0 \<and>
   pin_count (frame pinned_pool 0) = 1 \<and> tracked (replacer pinned_pool) 0 \<and>
   UnpinPage pinned_pool 0 True = Inr (True, unpinned_pool) \<and>
   is_dirty (frame unpinned_pool 0) \<and>
   frame_evictable (replacer unpinned_pool) 0"
proof -
  have a: "page_table pinned_pool 7 = None" by (simp add: pinned_pool_eval)
  have b: "page_table unpinned_pool 0 = Some 0 \<and> frame_ok unpinned_pool 0 \<and>
           pin_count (frame unpinned_pool 0) \<le> 0"
    by (simp add: unpinned_pool_eval frame_ok_def frame_def)
  have c: "page_table pinned_pool 0 = Some 0 \<and> frame_ok pinned_pool 0 \<and>
           pin_count (frame pinned_pool 0) = 1 \<and> tracked (replacer pinned_pool) 0"
    by (simp add: pinned_pool_eval frame_ok_def frame_def tracked_def)
  have d: "UnpinPage pinned_pool 0 True = Inr (True, unpinned_pool)"
    by (simp add: unpinned_pool_eval) (simp add: pinned_pool_eval bpm_defs replacer_defs eval_kit)
  have e: "is_dirty (frame unpinned_pool 0) \<and> frame_evictable (replacer unpinned_pool) 0"
    by (simp add: unpinned_pool_eval frame_def frame_evictable_def tracked_def node_of_def
          GetEvictable_def deref_def)
  from UnpinPage_spec[of pinned_pool 7 True] a
  have 1: "UnpinPage pinned_pool 7 True = Inr (False, pinned_pool)" by blast
  from UnpinPage_spec[of unpinned_pool 0 False] b
  have 2: "UnpinPage unpinned_pool 0 False = Inr (False, unpinned_pool)" by blast
  from a b c d e 1 2 show ?thesis by blast
qed

lemma as_int32_small: "n < 2 ^ 31 \<Longrightarrow> as_int32 n = int n"
proof -
  assume "n < 2 ^ 31"
  then have "int n < 2 ^ 31" by (metis of_nat_less_iff of_nat_numeral of_nat_power)
  then show ?thesis
    by (simp add: as_int32_def signed_of_nat signed_take_bit_int_eq_self)
qed

lemma RecordAccess_tracked:
  "\<not> frame_id > as_int32 (replacer_size r) \<Longrightarrow> tracked (RecordAccess kd r frame_id) frame_id"
  by (auto simp: RecordAccess_def tracked_def InsertKNode_def Let_def split: option.splits)

lemma install_page_ok:
  assumes "frame_ok s f" "length (pages s) = pool_size s" "replacer_size (replacer s) = pool_size s"
    "pool_size s < 2 ^ 31"
  shows "\<exists>r'. install_page kd s f pid =
            Inr (s\<lparr>pages := (pages s)[nat f := (frame s f)\<lparr>page_id := pid, pin_count := 1, is_dirty := False\<rparr>],
                   page_table := (page_table s)(pid \<mapsto> f), replacer := r'\<rparr>) \<and>
          SetEvictable (RecordAccess kd (replacer s) f) f False = Inr r' \<and>
          \<not> frame_evictable r' f"
proof -
  have "f < int (pool_size s)" using assms(1,2) by (auto simp: frame_ok_def)
  then have "\<not> f > as_int32 (replacer_size (replacer s))"
    using assms(3,4) by (simp add: as_int32_small)
  then have "tracked (RecordAccess kd (replacer s) f) f" by (rule RecordAccess_tracked)
  from SetEvictable_tracked[OF this, of False] obtain r' where
    "SetEvictable (RecordAccess kd (replacer s) f) f False = Inr r'" "\<not> frame_evictable r' f" by blast
  then show ?thesis
    by (simp add: install_page_def Let_def set_frame_def)
qed

lemma none_iff_all_pinned:
  assumes "bpm_inv s"
  shows "(free_list s = [] \<and> Size (replacer s) = 0) \<longleftrightarrow> all_pinned s"
proof
  assume a: "free_list s = [] \<and> Size (replacer s) = 0"
  then have "evictable_count (replacer s) = 0" using assms by (simp add: bpm_inv_def Size_def)
  then have ne: "\<forall>a\<in>set (default_list (replacer s) @ k_list (replacer s)). \<not> GetEvictable (replacer s) a"
    by (auto simp: evictable_count_def filter_empty_conv)
  show "all_pinned s"
    unfolding all_pinned_def
  proof (intro allI impI)
    fix f assume ok: "frame_ok s f"
    show "0 < pin_count (frame s f)"
    proof (rule ccontr)
      assume "\<not> 0 < pin_count (frame s f)"
      then have "pin_count (frame s f) \<le> 0" by simp
      with ok assms have "f \<in> set (free_list s) \<or>
        (\<exists>a\<in>set (default_list (replacer s) @ k_list (replacer s)).
           GetEvictable (replacer s) a \<and> GetFrameId (replacer s) a = f)"
        unfolding bpm_inv_def by blast
      with a ne show False by auto
    qed
  qed
next
  assume p: "all_pinned s"
  have "free_list s = []"
  proof (rule ccontr)
    assume "free_list s \<noteq> []"
    then obtain f where "f \<in> set (free_list s)" by (cases "free_list s") auto
    with assms have "frame_ok s f \<and> pin_count (frame s f) \<le> 0" unfolding bpm_inv_def by blast
    with p show False by (auto simp: all_pinned_def)
  qed
  moreover have "\<forall>a\<in>set (default_list (replacer s) @ k_list (replacer s)). \<not> GetEvictable (replacer s) a"
  proof (intro ballI notI)
    fix a assume "a \<in> set (default_list (replacer s) @ k_list (replacer s))" "GetEvictable (replacer s) a"
    with assms have "frame_ok s (GetFrameId (replacer s) a) \<and>
        pin_count (frame s (GetFrameId (replacer s) a)) \<le> 0" unfolding bpm_inv_def by blast
    with p show False by (auto simp: all_pinned_def)
  qed
  then have "evictable_count (replacer s) = 0"
    by (auto simp: evictable_count_def filter_empty_conv)
  ultimately show "free_list s = [] \<and> Size (replacer s) = 0"
    using assms by (simp add: bpm_inv_def Size_def)
qed

lemma Evict_victim:
  assumes "curr_size r = evictable_count r" "curr_size r \<noteq> 0"
  shows "\<exists>a r1. a \<in> set (default_list r @ k_list r) \<and> GetEvictable r a \<and>
           Evict r = (Some (GetFrameId r a), r1) \<and> replacer_size r1 = replacer_size r"
  using evictable_exists[OF assms]
proof (elim disjE exE conjE)
  fix pre a post
  assume h: "default_list r = pre @ a # post" "GetEvictable r a" "\<forall>b\<in>set post. \<not> GetEvictable r b"
  from Evict_default[OF assms(2) h] h(1,2) show ?thesis by auto
next
  fix pre a post
  assume h: "\<forall>b\<in>set (default_list r). \<not> GetEvictable r b"
     "k_list r = pre @ a # post" "GetEvictable r a" "\<forall>b\<in>set post. \<not> GetEvictable r b"
  from Evict_k[OF assms(2) h] h(2,3) show ?thesis by auto
qed


lemma NewPage_free:
  assumes inv: "bpm_inv s" and fl: "free_list s = f # rest"
  shows "\<exists>r'. NewPage kd s =
            Inr (Some (next_page_id s, f),
                 s\<lparr>free_list := rest,
                    pages := (pages s)[nat f := (frame s f)\<lparr>page_id := next_page_id s, pin_count := 1, is_dirty := False\<rparr>],
                    page_table := (page_table s)(next_page_id s \<mapsto> f),
                    next_page_id := next_page_id s + 1,
                    replacer := r'\<rparr>) \<and>
          SetEvictable (RecordAccess kd (replacer s) f) f False = Inr r' \<and>
          \<not> frame_evictable r' f"
proof -
  let ?s2 = "s\<lparr>free_list := rest, next_page_id := next_page_id s + 1\<rparr>"
  have ok: "frame_ok s f" using inv fl by (simp add: bpm_inv_def)
  then have ok2: "frame_ok ?s2 f" by (simp add: frame_ok_def)
  have "length (pages ?s2) = pool_size ?s2" "replacer_size (replacer ?s2) = pool_size ?s2"
    "pool_size ?s2 < 2 ^ 31"
    using inv by (simp_all add: bpm_inv_def)
  from install_page_ok[OF ok2 this, of kd "next_page_id s"] obtain r' where
    i: "install_page kd ?s2 f (next_page_id s) =
            Inr (?s2\<lparr>pages := (pages ?s2)[nat f := (frame ?s2 f)\<lparr>page_id := next_page_id s, pin_count := 1, is_dirty := False\<rparr>],
                   page_table := (page_table ?s2)(next_page_id s \<mapsto> f), replacer := r'\<rparr>)"
    and r: "SetEvictable (RecordAccess kd (replacer ?s2) f) f False = Inr r'" "\<not> frame_evictable r' f"
    by blast
  have "NewPage kd s = Inr (Some (next_page_id s, f),
       ?s2\<lparr>pages := (pages ?s2)[nat f := (frame ?s2 f)\<lparr>page_id := next_page_id s, pin_count := 1, is_dirty := False\<rparr>],
                   page_table := (page_table ?s2)(next_page_id s \<mapsto> f), replacer := r'\<rparr>)"
    using fl ok i by (simp add: NewPage_def acquire_frame_def AllocatePage_def Let_def frame_ok_def)
  then show ?thesis using r by (auto simp: frame_def)
qed

lemma NewPage_evict:
  assumes inv: "bpm_inv s" and fl: "free_list s = []" and np: "\<not> all_pinned s"
  shows "\<exists>f r1 r'. Evict (replacer s) = (Some f, r1) \<and> frame_ok s f \<and> pin_count (frame s f) \<le> 0 \<and>
          NewPage kd s =
            Inr (Some (next_page_id s, f),
                 s\<lparr>pages := (pages s)[nat f := (frame s f)
                       \<lparr>page_data := replicate (bytes_per_page s) 0,
                        page_id := next_page_id s, pin_count := 1, is_dirty := False\<rparr>],
                    page_table := ((page_table s)(page_id (frame s f) := None))(next_page_id s \<mapsto> f),
                    next_page_id := next_page_id s + 1,
                    disk_pages := (if is_dirty (frame s f)
                                   then (disk_pages s)(page_id (frame s f) \<mapsto> page_data (frame s f))
                                   else disk_pages s),
                    disk_log := disk_log s @
                       (if is_dirty (frame s f)
                        then [WritePage (page_id (frame s f)) (page_data (frame s f))] else []) @
                       [DeallocatePage (page_id (frame s f))],
                    replacer := r'\<rparr>) \<and>
          SetEvictable (RecordAccess kd r1 f) f False = Inr r' \<and>
          \<not> frame_evictable r' f"
proof -
  from none_iff_all_pinned[OF inv] fl np have sz: "Size (replacer s) \<noteq> 0" by auto
  then have nz: "curr_size (replacer s) \<noteq> 0" by (simp add: Size_def)
  have cnt: "curr_size (replacer s) = evictable_count (replacer s)" using inv by (simp add: bpm_inv_def)
  from Evict_victim[OF cnt nz] obtain a r1 where
    a: "a \<in> set (default_list (replacer s) @ k_list (replacer s))" "GetEvictable (replacer s) a"
    and ev: "Evict (replacer s) = (Some (GetFrameId (replacer s) a), r1)"
    and rs: "replacer_size r1 = replacer_size (replacer s)" by blast
  define f where "f = GetFrameId (replacer s) a"
  from a inv have ok: "frame_ok s f" and pin: "pin_count (frame s f) \<le> 0"
    unfolding bpm_inv_def f_def by blast+
  define pg where "pg = frame s f"
  define s5 where "s5 =
     s\<lparr>replacer := r1,
       pages := (pages s)[nat f := ResetMemory (bytes_per_page s) pg],
       page_table := (page_table s)(page_id pg := None),
       disk_pages := (if is_dirty pg then (disk_pages s)(page_id pg \<mapsto> page_data pg) else disk_pages s),
       disk_log := disk_log s @ (if is_dirty pg then [WritePage (page_id pg) (page_data pg)] else []) @
                   [DeallocatePage (page_id pg)]\<rparr>"
  have e5: "evict_frame s = Inr (f, s5)"
    using ev ok
    by (simp add: evict_frame_def f_def[symmetric] Let_def frame_ok_def frame_def pg_def s5_def
          disk_WritePage_def set_frame_def bpm_DeallocatePage_def)
  let ?s6 = "s5\<lparr>next_page_id := next_page_id s + 1\<rparr>"
  have ok6: "frame_ok ?s6 f" using ok by (simp add: frame_ok_def s5_def)
  have "length (pages ?s6) = pool_size ?s6" "replacer_size (replacer ?s6) = pool_size ?s6"
    "pool_size ?s6 < 2 ^ 31"
    using inv rs by (simp_all add: bpm_inv_def s5_def)
  from install_page_ok[OF ok6 this, of kd "next_page_id s"] obtain r' where
    i: "install_page kd ?s6 f (next_page_id s) =
            Inr (?s6\<lparr>pages := (pages ?s6)[nat f := (frame ?s6 f)\<lparr>page_id := next_page_id s, pin_count := 1, is_dirty := False\<rparr>],
                   page_table := (page_table ?s6)(next_page_id s \<mapsto> f), replacer := r'\<rparr>)"
    and r: "SetEvictable (RecordAccess kd (replacer ?s6) f) f False = Inr r'" "\<not> frame_evictable r' f"
    by blast
  have n5: "next_page_id s5 = next_page_id s" by (simp add: s5_def)
  have np: "NewPage kd s = Inr (Some (next_page_id s, f),
       ?s6\<lparr>pages := (pages ?s6)[nat f := (frame ?s6 f)\<lparr>page_id := next_page_id s, pin_count := 1, is_dirty := False\<rparr>],
                   page_table := (page_table ?s6)(next_page_id s \<mapsto> f), replacer := r'\<rparr>)"
    using fl sz e5 i n5 by (simp add: NewPage_def acquire_frame_def AllocatePage_def)
  have fr: "frame ?s6 f = ResetMemory (bytes_per_page s) pg"
    using ok by (simp add: frame_def s5_def frame_ok_def)
  have "NewPage kd s =
            Inr (Some (next_page_id s, f),
                 s\<lparr>pages := (pages s)[nat f := (frame s f)
                       \<lparr>page_data := replicate (bytes_per_page s) 0,
                        page_id := next_page_id s, pin_count := 1, is_dirty := False\<rparr>],
                    page_table := ((page_table s)(page_id (frame s f) := None))(next_page_id s \<mapsto> f),
                    next_page_id := next_page_id s + 1,
                    disk_pages := (if is_dirty (frame s f)
                                   then (disk_pages s)(page_id (frame s f) \<mapsto> page_data (frame s f))
                                   else disk_pages s),
                    disk_log := disk_log s @
                       (if is_dirty (frame s f)
                        then [WritePage (page_id (frame s f)) (page_data (frame s f))] else []) @
                       [DeallocatePage (page_id (frame s f))],
                    replacer := r'\<rparr>)"
    unfolding np fr by (simp add: s5_def pg_def ResetMemory_def)
  moreover have "SetEvictable (RecordAccess kd r1 f) f False = Inr r'"
    using r(1) by (simp add: s5_def)
  ultimately show ?thesis using ev ok pin r(2) unfolding f_def[symmetric] by blast
qed


text \<open>
  Claim C6. In a pool that satisfies its invariant, \<^verbatim>\<open>NewPage\<close> returns
  \<^verbatim>\<open>nullptr\<close> exactly when every frame is pinned, and then changes nothing. Otherwise
  it takes the front of the free list if there is one; only with an empty free list does it
  take the replacer's victim, and then the log of disk calls gains the write-back of the
  victim's bytes under its old page id (if the frame was dirty) followed by
  \<^verbatim>\<open>DeallocatePage\<close> of the old id, the old id leaves the page table and the bytes are
  zeroed. In both cases the page id returned is the counter's value, the counter advances
  by one, the frame gets that id with pin count 1 and a clean dirty flag, the page table
  maps the id to the frame, and the replacer is the old one (after the eviction) with the
  access recorded and the frame set non-evictable.
\<close>

theorem NewPage_spec:
  assumes "bpm_inv s"
  shows
   "(\<exists>res s'. NewPage kd s = Inr (res, s') \<and> (res = None \<longleftrightarrow> all_pinned s) \<and>
         (res = None \<longrightarrow> s' = s)) \<and>
    (\<forall>f rest. free_list s = f # rest \<longrightarrow>
       (\<exists>r'. NewPage kd s =
            Inr (Some (next_page_id s, f),
                 s\<lparr>free_list := rest,
                    pages := (pages s)[nat f := (frame s f)\<lparr>page_id := next_page_id s, pin_count := 1, is_dirty := False\<rparr>],
                    page_table := (page_table s)(next_page_id s \<mapsto> f),
                    next_page_id := next_page_id s + 1,
                    replacer := r'\<rparr>) \<and>
          SetEvictable (RecordAccess kd (replacer s) f) f False = Inr r' \<and>
          \<not> frame_evictable r' f)) \<and>
    (free_list s = [] \<and> \<not> all_pinned s \<longrightarrow>
       (\<exists>f r1 r'. Evict (replacer s) = (Some f, r1) \<and> frame_ok s f \<and> pin_count (frame s f) \<le> 0 \<and>
          NewPage kd s =
            Inr (Some (next_page_id s, f),
                 s\<lparr>pages := (pages s)[nat f := (frame s f)
                       \<lparr>page_data := replicate (bytes_per_page s) 0,
                        page_id := next_page_id s, pin_count := 1, is_dirty := False\<rparr>],
                    page_table := ((page_table s)(page_id (frame s f) := None))(next_page_id s \<mapsto> f),
                    next_page_id := next_page_id s + 1,
                    disk_pages := (if is_dirty (frame s f)
                                   then (disk_pages s)(page_id (frame s f) \<mapsto> page_data (frame s f))
                                   else disk_pages s),
                    disk_log := disk_log s @
                       (if is_dirty (frame s f)
                        then [WritePage (page_id (frame s f)) (page_data (frame s f))] else []) @
                       [DeallocatePage (page_id (frame s f))],
                    replacer := r'\<rparr>) \<and>
          SetEvictable (RecordAccess kd r1 f) f False = Inr r' \<and>
          \<not> frame_evictable r' f))"
proof (intro conjI allI impI)
  show "\<exists>res s'. NewPage kd s = Inr (res, s') \<and> (res = None \<longleftrightarrow> all_pinned s) \<and>
         (res = None \<longrightarrow> s' = s)"
  proof (cases "all_pinned s")
    case True
    with none_iff_all_pinned[OF assms] have "free_list s = [] \<and> Size (replacer s) = 0" by simp
    then have "NewPage kd s = Inr (None, s)" by (simp add: NewPage_def)
    with True show ?thesis by simp
  next
    case False
    show ?thesis
    proof (cases "free_list s")
      case Nil
      from NewPage_evict[OF assms Nil False, of kd] False show ?thesis by auto
    next
      case (Cons f rest)
      from NewPage_free[OF assms Cons, of kd] False show ?thesis by auto
    qed
  qed
next
  fix f rest assume "free_list s = f # rest"
  from NewPage_free[OF assms this, of kd]
  show "\<exists>r'. NewPage kd s =
            Inr (Some (next_page_id s, f),
                 s\<lparr>free_list := rest,
                    pages := (pages s)[nat f := (frame s f)\<lparr>page_id := next_page_id s, pin_count := 1, is_dirty := False\<rparr>],
                    page_table := (page_table s)(next_page_id s \<mapsto> f),
                    next_page_id := next_page_id s + 1,
                    replacer := r'\<rparr>) \<and>
          SetEvictable (RecordAccess kd (replacer s) f) f False = Inr r' \<and>
          \<not> frame_evictable r' f" .
next
  assume "free_list s = [] \<and> \<not> all_pinned s"
  then have a: "free_list s = []" and b: "\<not> all_pinned s" by simp_all
  from NewPage_evict[OF assms a b, of kd]
  show "\<exists>f r1 r'. Evict (replacer s) = (Some f, r1) \<and> frame_ok s f \<and> pin_count (frame s f) \<le> 0 \<and>
          NewPage kd s =
            Inr (Some (next_page_id s, f),
                 s\<lparr>pages := (pages s)[nat f := (frame s f)
                       \<lparr>page_data := replicate (bytes_per_page s) 0,
                        page_id := next_page_id s, pin_count := 1, is_dirty := False\<rparr>],
                    page_table := ((page_table s)(page_id (frame s f) := None))(next_page_id s \<mapsto> f),
                    next_page_id := next_page_id s + 1,
                    disk_pages := (if is_dirty (frame s f)
                                   then (disk_pages s)(page_id (frame s f) \<mapsto> page_data (frame s f))
                                   else disk_pages s),
                    disk_log := disk_log s @
                       (if is_dirty (frame s f)
                        then [WritePage (page_id (frame s f)) (page_data (frame s f))] else []) @
                       [DeallocatePage (page_id (frame s f))],
                    replacer := r'\<rparr>) \<and>
          SetEvictable (RecordAccess kd r1 f) f False = Inr r' \<and>
          \<not> frame_evictable r' f" .
qed

lemma frame_ok_single: "length (pages s) = Suc 0 \<Longrightarrow> frame_ok s f \<longleftrightarrow> f = 0"
  by (auto simp: frame_ok_def)

lemma frame_ok_zero: "0 \<le> f \<Longrightarrow> nat f < Suc 0 \<Longrightarrow> f = 0"
  by simp

lemma inv_init: "bpm_inv (BufferPoolManager_init 4 1 2)"
  unfolding bpm_inv_def
  by (auto simp: BufferPoolManager_init_def LRUKReplacer_init_def evictable_count_def
      frame_def frame_ok_def new_Page_def)

lemma inv_pinned: "bpm_inv pinned_pool"
  unfolding bpm_inv_def pinned_pool_eval
  by (auto simp: evictable_count_def GetEvictable_def GetFrameId_def deref_def frame_def frame_ok_def)

lemma inv_unpinned: "bpm_inv unpinned_pool"
  unfolding bpm_inv_def unpinned_pool_eval
  by (auto simp: evictable_count_def GetEvictable_def GetFrameId_def deref_def frame_def frame_ok_def)

theorem NewPage_spec_pools:
  "bpm_inv (BufferPoolManager_init 4 1 2) \<and>
   free_list (BufferPoolManager_init 4 1 2) = [0] \<and>
   NewPage front_ts (BufferPoolManager_init 4 1 2) = Inr (Some (0, 0), pinned_pool) \<and>
   bpm_inv pinned_pool \<and> all_pinned pinned_pool \<and>
   NewPage front_ts pinned_pool = Inr (None, pinned_pool) \<and>
   bpm_inv unpinned_pool \<and> free_list unpinned_pool = [] \<and> \<not> all_pinned unpinned_pool \<and>
   fst (projr (NewPage front_ts unpinned_pool)) = Some (1, 0) \<and>
   disk_log (snd (projr (NewPage front_ts unpinned_pool))) = [WritePage 0 [0, 0, 0, 0], DeallocatePage 0] \<and>
   page_table (snd (projr (NewPage front_ts unpinned_pool))) 0 = None \<and>
   page_table (snd (projr (NewPage front_ts unpinned_pool))) 1 = Some 0"
proof -
  have a: "free_list (BufferPoolManager_init 4 1 2) = [0]"
    by (simp add: BufferPoolManager_init_def)
  have b: "NewPage front_ts (BufferPoolManager_init 4 1 2) = Inr (Some (0, 0), pinned_pool)"
    by (simp add: pinned_pool_eval) (simp add: bpm_defs replacer_defs eval_kit)
  have c: "all_pinned pinned_pool"
    by (auto simp: all_pinned_def pinned_pool_eval frame_def frame_ok_def)
  have d: "free_list unpinned_pool = [] \<and> \<not> all_pinned unpinned_pool"
    by (auto simp: all_pinned_def unpinned_pool_eval frame_def frame_ok_def)
  have e: "NewPage front_ts unpinned_pool =
     Inr (Some (1, 0),
          \<lparr>bytes_per_page = 4, pool_size = Suc 0,
             pages = [\<lparr>page_data = [0, 0, 0, 0], page_id = 1, pin_count = 1, is_dirty = False\<rparr>],
             page_table = [1 \<mapsto> 0], free_list = [],
             replacer =
               \<lparr>node_heap =
                  [0 \<mapsto> \<lparr>node_history = [0], node_k = 2, node_fid = 0,
                      node_evictable = True, node_k_distance = 0\<rparr>,
                   Suc 0 \<mapsto> \<lparr>node_history = [Suc 0], node_k = 2, node_fid = 0,
                      node_evictable = False, node_k_distance = 0\<rparr>],
                  next_ref = Suc (Suc 0), default_list = [Suc 0],
                  default_map = [0 \<mapsto> Suc 0], k_list = [], k_map = Map.empty,
                  curr_size = 0, current_timestamp = Suc (Suc 0),
                  replacer_size = Suc 0, replacer_k = 2\<rparr>,
             next_page_id = 2, disk_pages = [0 \<mapsto> [0, 0, 0, 0]],
             disk_log = [WritePage 0 [0, 0, 0, 0], DeallocatePage 0]\<rparr>)"
    by (simp add: unpinned_pool_eval bpm_defs replacer_defs eval_kit)
  from NewPage_spec[OF inv_pinned, of front_ts] c
  have f: "NewPage front_ts pinned_pool = Inr (None, pinned_pool)" by auto
  show ?thesis
    using inv_init inv_pinned inv_unpinned a b c d f by (simp add: e)
qed

section \<open>B+Tree: evaluating concrete runs\<close>

lemmas page_defs =
  comparator_def cell_def read_cells_def write_cells_def half_int_def
  leaf_Init_def zero_leaf_def leaf_GetMinSize_def leaf_KeyAt_def leaf_ValueAt_def
  leaf_SetKeyValueAt_def leaf_FindValue_def leaf_Insert_def leaf_Delete_def leaf_Merge_def
  leaf_ShiftData_def leaf_CopyHalfFrom_def leaf_entries_def
  internal_Init_def zero_internal_def internal_GetMinSize_def internal_KeyAt_def
  internal_ValueAt_def internal_SetKeyAt_def internal_SetValueAt_def internal_SetKeyValueAt_def
  internal_FindValue_def internal_Insert_def internal_Delete_def internal_Merge_def
  internal_ShiftData_def internal_CopyHalfFrom_def internal_entries_def
  fetch_leaf_def fetch_internal_def

lemmas tree_defs =
  BPlusTree_init_def header_root_def set_root_def set_page_def new_leaf_def new_internal_def
  GetValue_def Insert_def tree_Remove_def DeleteEntry_def pick_siblings_def leaf_rebalance_def
  INVALID_PAGE_ID_def insert_key_def

text \<open>
  Concrete runs are evaluated by rewriting, arguments first: the continuation of a bind
  and the body of a \<open>let\<close> are only looked at once their argument is a value.
\<close>

lemma bind_weak_cong: "x = y \<Longrightarrow> Option.bind x f = Option.bind y f"
  by simp

lemmas tree_eval =
  page_defs tree_defs descend.simps lower_bound.simps upt_conv_Cons Let_def
  InsertInParent.simps DeleteInternalEntry.simps

lemma S3_after_3_eval:
  "S3_after_3 =
     \<lparr>tree_pages =
        [0 \<mapsto> HeaderPage 1,
         1 \<mapsto> LeafNode \<lparr>leaf_size = 3, leaf_max_size = 4, leaf_parent_page_id = 4,
                          leaf_next_page_id = - 1, leaf_array = [(1, 1), (2, 2), (3, 3)]\<rparr>],
      pool_next_page_id = 2, header_page_id = 0, tree_leaf_max_size = 4,
      tree_internal_max_size = 5, leaf_default_max_size = 4\<rparr>"
  by (simp add: S3_after_3_def tree_eval cong: bind_weak_cong let_weak_cong)

lemma S3_after_4_eval:
  "S3_after_4 =
     \<lparr>tree_pages =
        [0 \<mapsto> HeaderPage 3,
         3 \<mapsto> InternalNode \<lparr>int_size = 2, int_max_size = 5, int_parent_page_id = - 1,
                              int_array = [(0, 1), (3, 2)]\<rparr>,
         1 \<mapsto> LeafNode \<lparr>leaf_size = 2, leaf_max_size = 4, leaf_parent_page_id = 3,
                          leaf_next_page_id = 2,
                          leaf_array = [(1, 1), (2, 2), (3, 3), (4, 4)]\<rparr>,
         2 \<mapsto> LeafNode \<lparr>leaf_size = 2, leaf_max_size = 4, leaf_parent_page_id = 3,
                          leaf_next_page_id = - 1, leaf_array = [(3, 3), (4, 4)]\<rparr>],
      pool_next_page_id = 4, header_page_id = 0, tree_leaf_max_size = 4,
      tree_internal_max_size = 5, leaf_default_max_size = 4\<rparr>"
  by (simp add: S3_after_4_def tree_eval cong: bind_weak_cong let_weak_cong)

lemma S3_tree_eval:
  "S3_tree =
     \<lparr>tree_pages =
        [0 \<mapsto> HeaderPage 3,
         3 \<mapsto> InternalNode \<lparr>int_size = 2, int_max_size = 5, int_parent_page_id = - 1,
                              int_array = [(0, 1), (3, 2)]\<rparr>,
         1 \<mapsto> LeafNode \<lparr>leaf_size = 2, leaf_max_size = 4, leaf_parent_page_id = 3,
                          leaf_next_page_id = 2,
                          leaf_array = [(1, 1), (2, 2), (3, 3), (4, 4)]\<rparr>,
         2 \<mapsto> LeafNode \<lparr>leaf_size = 3, leaf_max_size = 4, leaf_parent_page_id = 3,
                          leaf_next_page_id = - 1, leaf_array = [(3, 3), (4, 4), (5, 5)]\<rparr>],
      pool_next_page_id = 4, header_page_id = 0, tree_leaf_max_size = 4,
      tree_internal_max_size = 5, leaf_default_max_size = 4\<rparr>"
  by (simp add: S3_tree_def S3_after_4_eval) (simp add: tree_eval cong: bind_weak_cong let_weak_cong)

lemma S4_after_5_eval:
  "S4_after_5 =
     \<lparr>tree_pages =
        [0 \<mapsto> HeaderPage 3,
         1 \<mapsto> LeafNode \<lparr>leaf_size = 1, leaf_max_size = 4, leaf_parent_page_id = 3,
                          leaf_next_page_id = 2,
                          leaf_array = [(1, 1), (2, 2), (3, 3), (4, 4)]\<rparr>,
         2 \<mapsto> LeafNode \<lparr>leaf_size = 3, leaf_max_size = 4, leaf_parent_page_id = 3,
                          leaf_next_page_id = - 1, leaf_array = [(2, 2), (3, 3), (4, 4)]\<rparr>,
         3 \<mapsto> InternalNode \<lparr>int_size = 2, int_max_size = 5, int_parent_page_id = - 1,
                              int_array = [(0, 1), (2, 2)]\<rparr>],
      pool_next_page_id = 4, header_page_id = 0, tree_leaf_max_size = 4,
      tree_internal_max_size = 5, leaf_default_max_size = 4\<rparr>"
  by (simp add: S4_after_5_def S3_tree_eval) (simp add: tree_eval cong: bind_weak_cong let_weak_cong)

lemma S4_tree_eval:
  "S4_tree =
     \<lparr>tree_pages =
        [2 \<mapsto> LeafNode \<lparr>leaf_size = 2, leaf_max_size = 4, leaf_parent_page_id = 3,
                          leaf_next_page_id = - 1, leaf_array = [(2, 2), (3, 3), (4, 4)]\<rparr>,
         1 \<mapsto> LeafNode \<lparr>leaf_size = 3, leaf_max_size = 4, leaf_parent_page_id = 3,
                          leaf_next_page_id = - 1,
                          leaf_array = [(1, 1), (2, 2), (3, 3), (4, 4)]\<rparr>,
         3 \<mapsto> InternalNode \<lparr>int_size = 1, int_max_size = 5, int_parent_page_id = - 1,
                              int_array = [(0, 1), (2, 2)]\<rparr>,
         0 \<mapsto> HeaderPage 1],
      pool_next_page_id = 4, header_page_id = 0, tree_leaf_max_size = 4,
      tree_internal_max_size = 5, leaf_default_max_size = 4\<rparr>"
  by (simp add: S4_tree_def S4_after_5_eval) (simp add: tree_eval cong: bind_weak_cong let_weak_cong)

section \<open>B+Tree pages: the binary search\<close>

lemma lower_bound_partition:
  assumes "\<forall>i j. first \<le> i \<and> i \<le> j \<and> j < first + len \<and> P (cell arr (nat j)) \<longrightarrow> P (cell arr (nat i))"
  shows "first \<le> lower_bound arr P first len \<and>
         lower_bound arr P first len \<le> first + max len 0 \<and>
         (\<forall>i. first \<le> i \<and> i < lower_bound arr P first len \<longrightarrow> P (cell arr (nat i))) \<and>
         (\<forall>i. lower_bound arr P first len \<le> i \<and> i < first + len \<longrightarrow> \<not> P (cell arr (nat i)))"
  using assms
proof (induction arr P first len rule: lower_bound.induct)
  case (1 arr P first len)
  show ?case
  proof (cases "0 < len")
    case False
    then show ?thesis by (subst (1 2 3 4) lower_bound.simps) auto
  next
    case pos: True
    let ?mid = "first + len div 2"
    have midr: "first \<le> ?mid" "?mid < first + len" using pos by auto
    show ?thesis
    proof (cases "P (cell arr (nat ?mid))")
      case True
      have eq: "lower_bound arr P first len = lower_bound arr P (?mid + 1) (len - len div 2 - 1)"
        using pos True by (subst lower_bound.simps) simp
      have mono': "\<forall>i j. ?mid + 1 \<le> i \<and> i \<le> j \<and> j < ?mid + 1 + (len - len div 2 - 1) \<and> P (cell arr (nat j)) \<longrightarrow> P (cell arr (nat i))"
      proof (intro allI impI)
        fix i j
        assume h: "?mid + 1 \<le> i \<and> i \<le> j \<and> j < ?mid + 1 + (len - len div 2 - 1) \<and> P (cell arr (nat j))"
        then have "first \<le> i \<and> i \<le> j \<and> j < first + len \<and> P (cell arr (nat j))"
          using midr by auto
        then show "P (cell arr (nat i))" using "1.prems" by blast
      qed
      note IH = "1.IH"(1)[OF pos True mono']
      have below: "\<forall>i. first \<le> i \<and> i \<le> ?mid \<longrightarrow> P (cell arr (nat i))"
        using "1.prems" True midr by blast
      have c1: "first \<le> lower_bound arr P (?mid + 1) (len - len div 2 - 1)"
        using IH midr by linarith
      have c2: "lower_bound arr P (?mid + 1) (len - len div 2 - 1) \<le> first + max len 0"
        using IH pos by (auto simp: max_def split: if_splits)
      have c3: "\<forall>i. first \<le> i \<and> i < lower_bound arr P (?mid + 1) (len - len div 2 - 1) \<longrightarrow> P (cell arr (nat i))"
      proof (intro allI impI)
        fix i assume h: "first \<le> i \<and> i < lower_bound arr P (?mid + 1) (len - len div 2 - 1)"
        show "P (cell arr (nat i))"
        proof (cases "i \<le> ?mid")
          case True with h below show ?thesis by blast
        next
          case False
          then have "?mid + 1 \<le> i" by simp
          with h IH show ?thesis by blast
        qed
      qed
      have c4: "\<forall>i. lower_bound arr P (?mid + 1) (len - len div 2 - 1) \<le> i \<and> i < first + len \<longrightarrow> \<not> P (cell arr (nat i))"
      proof (intro allI impI)
        fix i assume h: "lower_bound arr P (?mid + 1) (len - len div 2 - 1) \<le> i \<and> i < first + len"
        then have "i < ?mid + 1 + (len - len div 2 - 1)" by simp
        with h IH show "\<not> P (cell arr (nat i))" by blast
      qed
      show ?thesis unfolding eq using c1 c2 c3 c4 by blast
    next
      case False
      have eq: "lower_bound arr P first len = lower_bound arr P first (len div 2)"
        using pos False by (subst lower_bound.simps) simp
      have mono': "\<forall>i j. first \<le> i \<and> i \<le> j \<and> j < first + len div 2 \<and> P (cell arr (nat j)) \<longrightarrow> P (cell arr (nat i))"
      proof (intro allI impI)
        fix i j
        assume h: "first \<le> i \<and> i \<le> j \<and> j < first + len div 2 \<and> P (cell arr (nat j))"
        then have "first \<le> i \<and> i \<le> j \<and> j < first + len \<and> P (cell arr (nat j))"
          using midr by auto
        then show "P (cell arr (nat i))" using "1.prems" by blast
      qed
      note IH = "1.IH"(2)[OF pos False mono']
      have above: "\<forall>i. ?mid \<le> i \<and> i < first + len \<longrightarrow> \<not> P (cell arr (nat i))"
        using "1.prems" False midr by blast
      have c1: "first \<le> lower_bound arr P first (len div 2)"
        using IH by blast
      have c2: "lower_bound arr P first (len div 2) \<le> first + max len 0"
        using IH pos by (auto simp: max_def split: if_splits)
      have c2': "lower_bound arr P first (len div 2) \<le> ?mid"
        using IH pos by (auto simp: max_def split: if_splits)
      have c3: "\<forall>i. first \<le> i \<and> i < lower_bound arr P first (len div 2) \<longrightarrow> P (cell arr (nat i))"
        using IH by blast
      have c4: "\<forall>i. lower_bound arr P first (len div 2) \<le> i \<and> i < first + len \<longrightarrow> \<not> P (cell arr (nat i))"
      proof (intro allI impI)
        fix i assume h: "lower_bound arr P first (len div 2) \<le> i \<and> i < first + len"
        show "\<not> P (cell arr (nat i))"
        proof (cases "i < ?mid")
          case True with h IH show ?thesis by blast
        next
          case False
          then have "?mid \<le> i" by simp
          with h above show ?thesis by blast
        qed
      qed
      show ?thesis unfolding eq using c1 c2 c3 c4 by blast
    qed
  qed
qed


lemma nth_leaf_entries:
  "i < nat (leaf_size lp) \<Longrightarrow> leaf_entries lp ! i = cell (leaf_array lp) i"
  by (simp add: leaf_entries_def read_cells_def)

lemma length_leaf_entries: "length (leaf_entries lp) = nat (leaf_size lp)"
  by (simp add: leaf_entries_def read_cells_def)

lemma lower_bound_finds_key:
  assumes srt: "sorted_wrt (<) (map fst (leaf_entries lp))"
    and mem: "key \<in> set (map fst (leaf_entries lp))"
  shows "lower_bound (leaf_array lp) (\<lambda>e. comparator (fst e) key < 0) 0 (leaf_size lp) < leaf_size lp \<and>
         0 \<le> lower_bound (leaf_array lp) (\<lambda>e. comparator (fst e) key < 0) 0 (leaf_size lp) \<and>
         fst (cell (leaf_array lp) (nat (lower_bound (leaf_array lp) (\<lambda>e. comparator (fst e) key < 0) 0 (leaf_size lp)))) = key"
proof -
  let ?arr = "leaf_array lp" and ?n = "leaf_size lp"
  let ?P = "\<lambda>e::MappingType. comparator (fst e) key < 0"
  let ?k = "\<lambda>i::int. fst (cell ?arr (nat i))"
  have P: "\<And>e. ?P e \<longleftrightarrow> fst e < key" by (simp add: comparator_def)
  have lt: "?k i < ?k j" if "0 \<le> i" "i < j" "j < ?n" for i j
  proof -
    have a: "nat i < nat j" "nat j < length (map fst (leaf_entries lp))"
      using that by (simp_all add: length_leaf_entries)
    from sorted_wrt_nth_less[OF srt a]
    have "map fst (leaf_entries lp) ! nat i < map fst (leaf_entries lp) ! nat j" .
    moreover have "nat i < nat (leaf_size lp)" "nat j < nat (leaf_size lp)" using that by simp_all
    ultimately show ?thesis by (simp add: nth_leaf_entries length_leaf_entries)
  qed
  from mem obtain m where m: "m < nat ?n" "fst (leaf_entries lp ! m) = key"
    by (auto simp: in_set_conv_nth length_leaf_entries)
  define j where "j = int m"
  have j: "0 \<le> j" "j < ?n" "?k j = key"
    using m by (simp_all add: j_def nth_leaf_entries)
  have mono: "\<forall>i j. 0 \<le> i \<and> i \<le> j \<and> j < 0 + ?n \<and> ?P (cell ?arr (nat j)) \<longrightarrow> ?P (cell ?arr (nat i))"
  proof (intro allI impI)
    fix i j assume h: "0 \<le> i \<and> i \<le> j \<and> j < 0 + ?n \<and> ?P (cell ?arr (nat j))"
    show "?P (cell ?arr (nat i))"
    proof (cases "i = j")
      case True with h show ?thesis by simp
    next
      case False
      with h lt[of i j] have "?k i < ?k j" by simp
      with h show ?thesis by (simp add: P)
    qed
  qed
  define p where "p = lower_bound ?arr ?P 0 ?n"
  from lower_bound_partition[OF mono] have
    p0: "0 \<le> p" and
    pl: "\<forall>i. 0 \<le> i \<and> i < p \<longrightarrow> ?P (cell ?arr (nat i))" and
    pr: "\<forall>i. p \<le> i \<and> i < 0 + ?n \<longrightarrow> \<not> ?P (cell ?arr (nat i))"
    unfolding p_def by blast+
  have "\<not> ?P (cell ?arr (nat j))" using j(3) by (simp add: comparator_def)
  with pl j(1) have pj: "p \<le> j" by (meson not_le_imp_less)
  have "p = j"
  proof (rule ccontr)
    assume "p \<noteq> j"
    with pj have "p < j" by simp
    with lt[of p j] p0 j have "?k p < key" by simp
    moreover have "\<not> ?P (cell ?arr (nat p))" using pr pj j(2) by simp
    ultimately show False by (simp add: comparator_def)
  qed
  with j show ?thesis unfolding p_def by simp
qed

lemma leaf_Insert_duplicate:
  assumes "sorted_wrt (<) (map fst (leaf_entries lp))" "key \<in> set (map fst (leaf_entries lp))"
  shows "leaf_Insert lp key v = (False, lp)"
  using lower_bound_finds_key[OF assms]
  by (simp add: leaf_Insert_def Let_def comparator_def)

lemma fetch_leaf_Some:
  "fetch_leaf pgs pid = Some lp \<longleftrightarrow> pgs pid = Some (LeafNode lp)"
proof (cases "pgs pid")
  case None then show ?thesis by (simp add: fetch_leaf_def)
next
  case (Some pg) then show ?thesis by (cases pg) (simp_all add: fetch_leaf_def)
qed

section \<open>B+Tree: inserting a key that is already there\<close>

text \<open>
  When the descent for a key ends in the leaf that holds it, the keys of that leaf being
  strictly increasing, inserting the key returns false and the tree afterwards is the tree
  before: header, internal pages, leaves, the chain of next pointers and the pool's page
  counter. This does not depend on the size of the leaf, so it covers the path that inserts
  in place and the path that would split.
\<close>

lemma duplicate_Insert_rejected_when_reached:
  assumes "header_root t = Some root" "root \<noteq> INVALID_PAGE_ID"
    and "descend (tree_pages t) key root [] Map.empty = Some (leaf_pid, ws, idx)"
    and "fetch_leaf (tree_pages t) leaf_pid = Some lp"
    and "sorted_wrt (<) (map fst (leaf_entries lp))"
    and "key \<in> set (map fst (leaf_entries lp))"
  shows "Insert t key v = Some (False, t)"
proof -
  have d: "leaf_Insert lp key v = (False, lp)"
    using assms(5,6) by (rule leaf_Insert_duplicate)
  have "tree_pages t leaf_pid = Some (LeafNode lp)"
    using assms(4) by (simp add: fetch_leaf_Some)
  then have "set_page t leaf_pid (LeafNode lp) = t"
    by (simp add: set_page_def fun_upd_idem)
  then show ?thesis
    using assms(1,2,3,4) d by (simp add: Insert_def Let_def)
qed

lemma duplicate_Insert_rejected_when_reached_S3:
  "header_root S3_tree = Some 3 \<and>
   descend (tree_pages S3_tree) 1 3 [] Map.empty = Some (1, [3], [1 \<mapsto> 0]) \<and>
   map_option leaf_entries (fetch_leaf (tree_pages S3_tree) 1) = Some [(1, 1), (2, 2)] \<and>
   map_option (\<lambda>lp. leaf_size lp < leaf_max_size lp - 1) (fetch_leaf (tree_pages S3_tree) 1) = Some True \<and>
   Insert S3_tree 1 9 = Some (False, S3_tree) \<and>
   descend (tree_pages S3_tree) 4 3 [] Map.empty = Some (2, [3], [2 \<mapsto> 1]) \<and>
   map_option leaf_entries (fetch_leaf (tree_pages S3_tree) 2) = Some [(3, 3), (4, 4), (5, 5)] \<and>
   map_option (\<lambda>lp. leaf_size lp < leaf_max_size lp - 1) (fetch_leaf (tree_pages S3_tree) 2) = Some False \<and>
   Insert S3_tree 4 9 = Some (False, S3_tree)"
proof -
  let ?L1 = "\<lparr>leaf_size = 2, leaf_max_size = 4, leaf_parent_page_id = 3, leaf_next_page_id = 2,
               leaf_array = [(1, 1), (2, 2), (3, 3), (4, 4)]\<rparr>"
  let ?L2 = "\<lparr>leaf_size = 3, leaf_max_size = 4, leaf_parent_page_id = 3, leaf_next_page_id = - 1,
               leaf_array = [(3, 3), (4, 4), (5, 5)]\<rparr>"
  have r: "header_root S3_tree = Some 3" "(3::int) \<noteq> INVALID_PAGE_ID"
    by (simp_all add: S3_tree_eval header_root_def INVALID_PAGE_ID_def)
  have d1: "descend (tree_pages S3_tree) 1 3 [] Map.empty = Some (1, [3], [1 \<mapsto> 0])"
    by (simp add: S3_tree_eval) (simp add: tree_eval cong: bind_weak_cong let_weak_cong)
  have d4: "descend (tree_pages S3_tree) 4 3 [] Map.empty = Some (2, [3], [2 \<mapsto> 1])"
    by (simp add: S3_tree_eval) (simp add: tree_eval cong: bind_weak_cong let_weak_cong)
  have f1: "fetch_leaf (tree_pages S3_tree) 1 = Some ?L1"
    by (simp add: S3_tree_eval fetch_leaf_def)
  have f2: "fetch_leaf (tree_pages S3_tree) 2 = Some ?L2"
    by (simp add: S3_tree_eval fetch_leaf_def)
  have e1: "leaf_entries ?L1 = [(1, 1), (2, 2)]"
    by (simp add: leaf_entries_def read_cells_def cell_def upt_conv_Cons)
  have e2: "leaf_entries ?L2 = [(3, 3), (4, 4), (5, 5)]"
    by (simp add: leaf_entries_def read_cells_def cell_def upt_conv_Cons)
  have s1: "sorted_wrt (<) (map fst (leaf_entries ?L1))" "1 \<in> set (map fst (leaf_entries ?L1))"
    by (simp_all add: e1)
  have s2: "sorted_wrt (<) (map fst (leaf_entries ?L2))" "4 \<in> set (map fst (leaf_entries ?L2))"
    by (simp_all add: e2)
  note i1 = duplicate_Insert_rejected_when_reached[OF r d1 f1 s1, of 9]
  note i4 = duplicate_Insert_rejected_when_reached[OF r d4 f2 s2, of 9]
  show ?thesis
    using r(1) d1 d4 i1 i4 by (simp add: f1 f2 e1 e2)
qed

lemma S3_negative_eval:
  "S3_negative =
     \<lparr>tree_pages =
        [0 \<mapsto> HeaderPage 3,
         3 \<mapsto> InternalNode \<lparr>int_size = 2, int_max_size = 5, int_parent_page_id = - 1,
                              int_array = [(0, 1), (2, 2)]\<rparr>,
         1 \<mapsto> LeafNode \<lparr>leaf_size = 2, leaf_max_size = 4, leaf_parent_page_id = 3,
                          leaf_next_page_id = 2,
                          leaf_array = [(- 1, - 1), (1, 1), (2, 2), (3, 3)]\<rparr>,
         2 \<mapsto> LeafNode \<lparr>leaf_size = 2, leaf_max_size = 4, leaf_parent_page_id = 3,
                          leaf_next_page_id = - 1, leaf_array = [(2, 2), (3, 3)]\<rparr>],
      pool_next_page_id = 4, header_page_id = 0, tree_leaf_max_size = 4,
      tree_internal_max_size = 5, leaf_default_max_size = 4\<rparr>"
  by (simp add: S3_negative_def S3_after_3_eval)
     (simp add: insert_key_def tree_eval cong: bind_weak_cong let_weak_cong)

text \<open>
  A key below every key of an internal root, the one at index 0 included, has no path to a
  leaf: \<^verbatim>\<open>FindValue\<close> yields the slot \<open>-1\<close>, and \<^verbatim>\<open>Insert\<close> has no result.
\<close>

lemma Insert_below_first_key:
  assumes "header_root t = Some root" "root \<noteq> INVALID_PAGE_ID"
    and "tree_pages t root = Some (InternalNode p)"
    and "internal_FindValue_slot p key = - 1"
  shows "Insert t key v = None"
proof -
  have "internal_FindValue p key = None"
    using assms(4) by (simp add: internal_FindValue_def internal_FindValue_slot_def Let_def)
  then have "descend (tree_pages t) key root [] Map.empty = None"
    using assms(3) by (subst descend.simps) simp
  then show ?thesis using assms(1,2) by (simp add: Insert_def)
qed

text \<open>
  Claim C5. A key that is already in the tree is to be refused by \<^verbatim>\<open>Insert\<close>, with the tree
  left as it was. The descent of \<^verbatim>\<open>Insert\<close> goes through \<^verbatim>\<open>FindValue\<close> of the internal
  pages, whose search starts at \<^verbatim>\<open>array_\<close>: a stored key below the key at index 0 of the
  root cannot be reached again. Inserting \<open>-1\<close> into the tree that holds 1, 2, 3 succeeds and
  splits the root leaf; the tree then has the root \<open>[(0, 1), (2, 2)]\<close> over the leaves
  \<open>{-1, 1}\<close> and \<open>{2, 3}\<close>. Inserting \<open>-1\<close> once more looks up the slot \<open>-1\<close> of the root, in
  front of \<^verbatim>\<open>array_\<close>, and the call does not return false with the tree unchanged.
\<close>

theorem duplicate_Insert_below_first_key:
  "Insert S3_after_3 (- 1) (- 1) = Some (True, S3_negative) \<and>
   header_root S3_negative = Some 3 \<and>
   map_option internal_entries (fetch_internal (tree_pages S3_negative) 3) = Some [(0, 1), (2, 2)] \<and>
   map_option leaf_entries (fetch_leaf (tree_pages S3_negative) 1) = Some [(- 1, - 1), (1, 1)] \<and>
   map_option leaf_entries (fetch_leaf (tree_pages S3_negative) 2) = Some [(2, 2), (3, 3)] \<and>
   map_option (\<lambda>p. internal_FindValue_slot p (- 1)) (fetch_internal (tree_pages S3_negative) 3) =
     Some (- 1) \<and>
   descend (tree_pages S3_negative) (- 1) 3 [] Map.empty = None \<and>
   Insert S3_negative (- 1) (- 1) = None \<and>
   Insert S3_negative (- 1) (- 1) \<noteq> Some (False, S3_negative)"
proof -
  have a: "Insert S3_after_3 (- 1) (- 1) = Some (True, S3_negative)"
    by (simp add: S3_after_3_eval S3_negative_eval)
       (simp add: tree_eval cong: bind_weak_cong let_weak_cong)
  have b: "header_root S3_negative = Some 3 \<and>
   map_option internal_entries (fetch_internal (tree_pages S3_negative) 3) = Some [(0, 1), (2, 2)] \<and>
   map_option leaf_entries (fetch_leaf (tree_pages S3_negative) 1) = Some [(- 1, - 1), (1, 1)] \<and>
   map_option leaf_entries (fetch_leaf (tree_pages S3_negative) 2) = Some [(2, 2), (3, 3)]"
    by (simp add: S3_negative_eval header_root_def fetch_leaf_def fetch_internal_def
        leaf_entries_def internal_entries_def read_cells_def cell_def upt_conv_Cons)
  have c: "map_option (\<lambda>p. internal_FindValue_slot p (- 1)) (fetch_internal (tree_pages S3_negative) 3) =
     Some (- 1)"
    by (simp add: S3_negative_eval fetch_internal_def internal_FindValue_slot_def
          lower_bound.simps cell_def comparator_def)
  have d: "descend (tree_pages S3_negative) (- 1) 3 [] Map.empty = None"
    by (simp add: S3_negative_eval) (simp add: tree_eval cong: bind_weak_cong let_weak_cong)
  have e: "Insert S3_negative (- 1) (- 1) = None"
    by (simp add: S3_negative_eval) (simp add: tree_eval cong: bind_weak_cong let_weak_cong)
  from a b c d e show ?thesis by simp
qed

section \<open>Index iterator\<close>

text \<open>
  Claim C8. For an iterator that stands on entry \<open>i\<close> of a leaf: \<^verbatim>\<open>IsEnd()\<close> holds
  exactly when the leaf has no successor and \<open>i\<close> is its last entry; \<^verbatim>\<open>operator++\<close>
  moves to entry \<open>i + 1\<close> of the same leaf when \<open>i\<close> is not the last entry, to the end
  sentinel (\<^verbatim>\<open>INVALID_PAGE_ID\<close>, \<open>-1\<close>) from the last entry of a leaf without successor,
  and to entry 0 of the next leaf from the last entry of a leaf that has one (the next
  leaf has an entry 0).
\<close>

theorem iterator_increment:
  assumes "iter_page_id it \<noteq> INVALID_PAGE_ID"
    and "fetch_leaf pgs (iter_page_id it) = Some lf"
    and "0 \<le> iter_index it" "iter_index it < leaf_size lf"
  shows
   "IsEnd pgs it = Some (leaf_next_page_id lf = INVALID_PAGE_ID \<and> iter_index it = leaf_size lf - 1) \<and>
    (iter_index it < leaf_size lf - 1 \<longrightarrow>
       iter_next pgs it =
         Some (it\<lparr>iter_index := iter_index it + 1,
                  iter_entry := cell (leaf_array lf) (nat (iter_index it + 1))\<rparr>)) \<and>
    (iter_index it = leaf_size lf - 1 \<and> leaf_next_page_id lf = INVALID_PAGE_ID \<longrightarrow>
       iter_next pgs it = Some (it\<lparr>iter_page_id := INVALID_PAGE_ID, iter_index := - 1\<rparr>)) \<and>
    (\<forall>nx. iter_index it = leaf_size lf - 1 \<and> leaf_next_page_id lf \<noteq> INVALID_PAGE_ID \<and>
          fetch_leaf pgs (leaf_next_page_id lf) = Some nx \<and> 0 < leaf_size nx \<longrightarrow>
       iter_next pgs it =
         Some \<lparr>iter_page_id = leaf_next_page_id lf, iter_index = 0,
               iter_entry = cell (leaf_array nx) 0\<rparr>)"
  using assms
  by (auto simp: IsEnd_def iter_next_def leaf_KeyAt_def leaf_ValueAt_def)


theorem iterator_increment_S3:
  "fetch_leaf (tree_pages S3_tree) 1 \<noteq> None \<and>
   iter_next (tree_pages S3_tree) \<lparr>iter_page_id = 1, iter_index = 0, iter_entry = (1, 1)\<rparr> =
     Some \<lparr>iter_page_id = 1, iter_index = 1, iter_entry = (2, 2)\<rparr> \<and>
   IsEnd (tree_pages S3_tree) \<lparr>iter_page_id = 1, iter_index = 1, iter_entry = (2, 2)\<rparr> = Some False \<and>
   iter_next (tree_pages S3_tree) \<lparr>iter_page_id = 1, iter_index = 1, iter_entry = (2, 2)\<rparr> =
     Some \<lparr>iter_page_id = 2, iter_index = 0, iter_entry = (3, 3)\<rparr> \<and>
   iter_next (tree_pages S3_tree) \<lparr>iter_page_id = 2, iter_index = 0, iter_entry = (3, 3)\<rparr> =
     Some \<lparr>iter_page_id = 2, iter_index = 1, iter_entry = (4, 4)\<rparr> \<and>
   iter_next (tree_pages S3_tree) \<lparr>iter_page_id = 2, iter_index = 1, iter_entry = (4, 4)\<rparr> =
     Some \<lparr>iter_page_id = 2, iter_index = 2, iter_entry = (5, 5)\<rparr> \<and>
   IsEnd (tree_pages S3_tree) \<lparr>iter_page_id = 2, iter_index = 2, iter_entry = (5, 5)\<rparr> = Some True \<and>
   iter_next (tree_pages S3_tree) \<lparr>iter_page_id = 2, iter_index = 2, iter_entry = (5, 5)\<rparr> =
     Some \<lparr>iter_page_id = INVALID_PAGE_ID, iter_index = - 1, iter_entry = (5, 5)\<rparr>"
proof -
  let ?L1 = "\<lparr>leaf_size = 2, leaf_max_size = 4, leaf_parent_page_id = 3, leaf_next_page_id = 2,
               leaf_array = [(1, 1), (2, 2), (3, 3), (4, 4)]\<rparr>"
  let ?L2 = "\<lparr>leaf_size = 3, leaf_max_size = 4, leaf_parent_page_id = 3, leaf_next_page_id = - 1,
               leaf_array = [(3, 3), (4, 4), (5, 5)]\<rparr>"
  let ?pgs = "tree_pages S3_tree"
  have f1: "fetch_leaf ?pgs 1 = Some ?L1"
    by (simp add: S3_tree_eval fetch_leaf_def)
  have f2: "fetch_leaf ?pgs 2 = Some ?L2"
    by (simp add: S3_tree_eval fetch_leaf_def)
  have a: "iter_next ?pgs \<lparr>iter_page_id = 1, iter_index = 0, iter_entry = (1, 1)\<rparr> =
             Some \<lparr>iter_page_id = 1, iter_index = 1, iter_entry = (2, 2)\<rparr>"
    using iterator_increment[of "\<lparr>iter_page_id = 1, iter_index = 0, iter_entry = (1, 1)\<rparr>" ?pgs ?L1]
    by (simp add: f1 INVALID_PAGE_ID_def cell_def)
  have b: "IsEnd ?pgs \<lparr>iter_page_id = 1, iter_index = 1, iter_entry = (2, 2)\<rparr> = Some False \<and>
           iter_next ?pgs \<lparr>iter_page_id = 1, iter_index = 1, iter_entry = (2, 2)\<rparr> =
             Some \<lparr>iter_page_id = 2, iter_index = 0, iter_entry = (3, 3)\<rparr>"
    using iterator_increment[of "\<lparr>iter_page_id = 1, iter_index = 1, iter_entry = (2, 2)\<rparr>" ?pgs ?L1]
    by (simp add: f1 f2 INVALID_PAGE_ID_def cell_def)
  have c: "iter_next ?pgs \<lparr>iter_page_id = 2, iter_index = 0, iter_entry = (3, 3)\<rparr> =
             Some \<lparr>iter_page_id = 2, iter_index = 1, iter_entry = (4, 4)\<rparr>"
    using iterator_increment[of "\<lparr>iter_page_id = 2, iter_index = 0, iter_entry = (3, 3)\<rparr>" ?pgs ?L2]
    by (simp add: f2 INVALID_PAGE_ID_def cell_def)
  have d: "iter_next ?pgs \<lparr>iter_page_id = 2, iter_index = 1, iter_entry = (4, 4)\<rparr> =
             Some \<lparr>iter_page_id = 2, iter_index = 2, iter_entry = (5, 5)\<rparr>"
    using iterator_increment[of "\<lparr>iter_page_id = 2, iter_index = 1, iter_entry = (4, 4)\<rparr>" ?pgs ?L2]
    by (simp add: f2 INVALID_PAGE_ID_def cell_def)
  have e: "IsEnd ?pgs \<lparr>iter_page_id = 2, iter_index = 2, iter_entry = (5, 5)\<rparr> = Some True \<and>
           iter_next ?pgs \<lparr>iter_page_id = 2, iter_index = 2, iter_entry = (5, 5)\<rparr> =
             Some \<lparr>iter_page_id = INVALID_PAGE_ID, iter_index = - 1, iter_entry = (5, 5)\<rparr>"
    using iterator_increment[of "\<lparr>iter_page_id = 2, iter_index = 2, iter_entry = (5, 5)\<rparr>" ?pgs ?L2]
    by (simp add: f2 INVALID_PAGE_ID_def)
  from f1 a b c d e show ?thesis by simp
qed

section \<open>B+Tree: the leaf split and scenario S3\<close>









text \<open>
  What a new leaf is given. The maximum size the tree was constructed with reaches a leaf
  only as its parent page id; the maximum size of the leaf is the default. With the default
  4 the run of S3 is the same for every \<^verbatim>\<open>leaf_max_size_\<close>, with a default above 6 the
  five keys stay in one leaf, and with the default 5 the root is still a leaf of four keys
  when 5 is inserted.
\<close>

lemma new_leaf_fields:
  "leaf_max_size (new_leaf t) = leaf_default_max_size t \<and>
   leaf_parent_page_id (new_leaf t) = tree_leaf_max_size t"
  by (simp add: new_leaf_def leaf_Init_def)

lemma S3_any_leaf_max_size:
  "fold insert_key [1, 2, 3, 4, 5] (BPlusTree_init 0 lm 5 4) = S3_tree\<lparr>tree_leaf_max_size := lm\<rparr>"
  by (simp add: S3_tree_eval) (simp add: insert_key_def tree_eval cong: bind_weak_cong let_weak_cong)

lemma S3_large_default:
  assumes "6 < d"
  shows "fold insert_key [1, 2, 3, 4, 5] (BPlusTree_init 0 4 5 d) =
     \<lparr>tree_pages =
        [0 \<mapsto> HeaderPage 1,
         1 \<mapsto> LeafNode \<lparr>leaf_size = 5, leaf_max_size = d, leaf_parent_page_id = 4,
                          leaf_next_page_id = - 1,
                          leaf_array = [(1, 1), (2, 2), (3, 3), (4, 4), (5, 5)]\<rparr>],
      pool_next_page_id = 2, header_page_id = 0, tree_leaf_max_size = 4,
      tree_internal_max_size = 5, leaf_default_max_size = d\<rparr>"
  using assms
  by (simp add: insert_key_def tree_eval cong: bind_weak_cong let_weak_cong)

lemma S3_default_5:
  "fold insert_key [1, 2, 3, 4] (BPlusTree_init 0 4 5 5) =
     \<lparr>tree_pages =
        [0 \<mapsto> HeaderPage 1,
         1 \<mapsto> LeafNode \<lparr>leaf_size = 4, leaf_max_size = 5, leaf_parent_page_id = 4,
                          leaf_next_page_id = - 1,
                          leaf_array = [(1, 1), (2, 2), (3, 3), (4, 4)]\<rparr>],
      pool_next_page_id = 2, header_page_id = 0, tree_leaf_max_size = 4,
      tree_internal_max_size = 5, leaf_default_max_size = 5\<rparr>"
  by (simp add: insert_key_def tree_eval cong: bind_weak_cong let_weak_cong)




section \<open>B+Tree pages: FindValue of an internal page\<close>

text \<open>
  When the key stored at index 0 is at most the search key, \<^verbatim>\<open>FindValue\<close> returns the child
  at the slot the specification names, and that slot is the index it writes.
\<close>

lemma internal_FindValue_by_slot:
  "internal_FindValue p key =
     (if 0 \<le> internal_FindValue_slot p key
      then Some (snd (cell (int_array p) (nat (internal_FindValue_slot p key))),
                 internal_FindValue_slot p key)
      else None)"
  by (simp add: internal_FindValue_def internal_FindValue_slot_def Let_def)

lemma sorted_le_last: "sorted (ys::int list) \<Longrightarrow> x \<in> set ys \<Longrightarrow> x \<le> last ys"
  by (induction ys) auto

lemma spec_FindValue_slot_largest:
  assumes n: "1 \<le> int_size p"
  shows "0 \<le> spec_FindValue_slot p key \<and> spec_FindValue_slot p key < int_size p \<and>
         (spec_FindValue_slot p key = 0 \<or>
          comparator (fst (cell (int_array p) (nat (spec_FindValue_slot p key)))) key \<le> 0) \<and>
         (\<forall>i. 0 \<le> i \<and> i < int_size p \<and>
              (i = 0 \<or> comparator (fst (cell (int_array p) (nat i))) key \<le> 0) \<longrightarrow>
              i \<le> spec_FindValue_slot p key)"
proof -
  let ?Q = "\<lambda>i::int. i = 0 \<or> comparator (fst (cell (int_array p) (nat i))) key \<le> 0"
  let ?xs = "map int [0..<nat (int_size p)]"
  let ?ys = "filter ?Q ?xs"
  have mem: "i \<in> set ?xs \<longleftrightarrow> 0 \<le> i \<and> i < int_size p" for i
  proof
    assume "i \<in> set ?xs" then show "0 \<le> i \<and> i < int_size p" by auto
  next
    assume h: "0 \<le> i \<and> i < int_size p"
    then have "nat i \<in> set [0..<nat (int_size p)]" by simp
    then have "int (nat i) \<in> int ` set [0..<nat (int_size p)]" by (rule imageI)
    with h show "i \<in> set ?xs" by (simp only: set_map nat_0_le)
  qed
  have "0 \<in> set ?xs" using n by (simp add: mem)
  then have z: "0 \<in> set ?ys" by (simp only: set_filter mem_Collect_eq simp_thms)
  have ne: "?ys \<noteq> []"
  proof
    assume e: "?ys = []"
    from z show False unfolding e by simp
  qed
  have "sorted ?xs" by (simp add: sorted_map sorted_wrt_iff_nth_less)
  then have srt: "sorted ?ys" by (rule sorted_wrt_filter)
  from last_in_set[OF ne] have l: "last ?ys \<in> set ?xs" "?Q (last ?ys)" by auto
  have mx: "i \<le> last ?ys" if "0 \<le> i" "i < int_size p" "?Q i" for i
  proof -
    from that have "i \<in> set ?ys" using mem[of i] by simp
    with srt show ?thesis by (rule sorted_le_last)
  qed
  from l mx show ?thesis
    unfolding spec_FindValue_slot_def using mem[of "last ?ys"] by blast
qed

lemma internal_FindValue_when_first_key_le:
  assumes n: "1 \<le> int_size p"
    and srt: "\<forall>i j. 1 \<le> i \<and> i < j \<and> j < int_size p \<longrightarrow>
               fst (cell (int_array p) (nat i)) < fst (cell (int_array p) (nat j))"
    and first: "comparator (fst (cell (int_array p) 0)) key \<le> 0"
  shows "internal_FindValue_slot p key = spec_FindValue_slot p key \<and>
         internal_FindValue p key =
           Some (snd (cell (int_array p) (nat (spec_FindValue_slot p key))), spec_FindValue_slot p key)"
proof -
  let ?arr = "int_array p" and ?n = "int_size p"
  let ?P = "\<lambda>e::MappingType. comparator (fst e) key \<le> 0"
  let ?k = "\<lambda>i::int. fst (cell ?arr (nat i))"
  have P: "\<And>e. ?P e \<longleftrightarrow> fst e \<le> key" by (simp add: comparator_def)
  have mono: "\<forall>i j. 0 \<le> i \<and> i \<le> j \<and> j < 0 + ?n \<and> ?P (cell ?arr (nat j)) \<longrightarrow> ?P (cell ?arr (nat i))"
  proof (intro allI impI)
    fix i j assume h: "0 \<le> i \<and> i \<le> j \<and> j < 0 + ?n \<and> ?P (cell ?arr (nat j))"
    show "?P (cell ?arr (nat i))"
    proof (cases "i = 0 \<or> i = j")
      case True with h first show ?thesis by auto
    next
      case False
      with h srt have "?k i < ?k j" by simp
      with h show ?thesis by (simp add: P)
    qed
  qed
  define r where "r = lower_bound ?arr ?P 0 ?n"
  from lower_bound_partition[OF mono] have
    r0: "0 \<le> r" and rn: "r \<le> ?n" and
    rl: "\<forall>i. 0 \<le> i \<and> i < r \<longrightarrow> ?P (cell ?arr (nat i))" and
    rr: "\<forall>i. r \<le> i \<and> i < ?n \<longrightarrow> \<not> ?P (cell ?arr (nat i))"
    using n by (simp_all add: r_def max_def)
  have r1: "1 \<le> r"
  proof (rule ccontr)
    assume "\<not> 1 \<le> r"
    with r0 have "r = 0" by simp
    with rr n have "(0::int) \<le> 0 \<and> 0 < ?n \<longrightarrow> \<not> ?P (cell ?arr (nat 0))" by blast
    with n first show False by simp
  qed
  define s where "s = spec_FindValue_slot p key"
  from spec_FindValue_slot_largest[OF n, of key] have
    s0: "0 \<le> s" and sn: "s < ?n" and
    sq: "s = 0 \<or> comparator (?k s) key \<le> 0" and
    sm: "\<forall>i. 0 \<le> i \<and> i < ?n \<and> (i = 0 \<or> comparator (?k i) key \<le> 0) \<longrightarrow> i \<le> s"
    by (simp_all add: s_def)
  have a: "r - 1 \<le> s"
  proof -
    have "?P (cell ?arr (nat (r - 1)))" using rl r1 by simp
    with sm r1 rn show ?thesis by simp
  qed
  have b: "s \<le> r - 1"
  proof (rule ccontr)
    assume "\<not> s \<le> r - 1"
    then have "r \<le> s" by simp
    with rr sn have "\<not> ?P (cell ?arr (nat s))" by simp
    with sq have "s = 0" by simp
    with \<open>r \<le> s\<close> r1 show False by simp
  qed
  from a b have eq: "internal_FindValue_slot p key = s"
    by (simp add: internal_FindValue_slot_def r_def)
  with s0 show ?thesis
    by (simp add: internal_FindValue_by_slot s_def)
qed

text \<open>
  Claim C4. \<^verbatim>\<open>FindValue\<close> of an internal page is specified to return the child at the largest
  index \<open>i\<close> with \<open>i = 0\<close> or \<^verbatim>\<open>KeyAt(i)\<close> at most the key, index 0 counting as
  unconditionally smaller. The search of the code runs over \<^verbatim>\<open>[array_, array_ + GetSize())\<close>,
  index 0 included, and compares the key stored there: on the page of size 2 with entries
  \<open>(5, 1)\<close> and \<open>(7, 2)\<close> and the search key 4, \<^verbatim>\<open>std::lower_bound\<close> returns \<^verbatim>\<open>array_\<close>, the
  step back gives the slot index \<open>-1\<close> in place of 0, and the child is read from in front of
  \<^verbatim>\<open>array_\<close> in place of the child 1 at index 0.
\<close>

theorem internal_FindValue_below_first_key:
  "(2::int) \<le> int_size \<lparr>int_size = 2, int_max_size = 5, int_parent_page_id = - 1,
                         int_array = [(5, 1), (7, 2)]\<rparr> \<and>
   spec_FindValue_slot \<lparr>int_size = 2, int_max_size = 5, int_parent_page_id = - 1,
                        int_array = [(5, 1), (7, 2)]\<rparr> 4 = 0 \<and>
   internal_ValueAt \<lparr>int_size = 2, int_max_size = 5, int_parent_page_id = - 1,
                     int_array = [(5, 1), (7, 2)]\<rparr> 0 = Some 1 \<and>
   internal_FindValue_slot \<lparr>int_size = 2, int_max_size = 5, int_parent_page_id = - 1,
                            int_array = [(5, 1), (7, 2)]\<rparr> 4 = - 1 \<and>
   internal_FindValue \<lparr>int_size = 2, int_max_size = 5, int_parent_page_id = - 1,
                       int_array = [(5, 1), (7, 2)]\<rparr> 4 = None"
  by (simp add: spec_FindValue_slot_def internal_FindValue_slot_def internal_FindValue_def
        internal_ValueAt_def lower_bound.simps cell_def comparator_def upt_conv_Cons Let_def)

text \<open>
  The same on the root of the S3 tree, whose index 0 holds the zero key of a fresh page: a
  lookup of the key \<open>-1\<close> does not reach a leaf.
\<close>

lemma FindValue_S3_root_negative_key:
  "fetch_internal (tree_pages S3_tree) 3 =
     Some \<lparr>int_size = 2, int_max_size = 5, int_parent_page_id = - 1, int_array = [(0, 1), (3, 2)]\<rparr> \<and>
   internal_FindValue_slot \<lparr>int_size = 2, int_max_size = 5, int_parent_page_id = - 1,
                            int_array = [(0, 1), (3, 2)]\<rparr> (- 1) = - 1 \<and>
   spec_FindValue_slot \<lparr>int_size = 2, int_max_size = 5, int_parent_page_id = - 1,
                        int_array = [(0, 1), (3, 2)]\<rparr> (- 1) = 0 \<and>
   GetValue S3_tree (- 1) = None"
  apply (intro conjI)
     apply (simp add: S3_tree_eval fetch_internal_def)
    apply (simp add: internal_FindValue_slot_def lower_bound.simps cell_def comparator_def)
   apply (simp add: spec_FindValue_slot_def cell_def comparator_def upt_conv_Cons)
  apply (simp add: S3_tree_eval GetValue_def)
  apply (simp add: tree_eval cong: bind_weak_cong let_weak_cong)
  done

section \<open>B+Tree: the leaf merge and scenario S4\<close>

lemma cell_write_cells:
  "cell (write_cells arr pos xs) i =
     (if i < pos then cell arr i
      else if i < pos + length xs then xs ! (i - pos)
      else cell arr i)"
  by (auto simp: cell_def write_cells_def nth_append min_def)

lemma length_read_cells: "length (read_cells arr lo hi) = hi - lo"
  by (simp add: read_cells_def)

lemma nth_read_cells: "i < hi - lo \<Longrightarrow> read_cells arr lo hi ! i = cell arr (lo + i)"
  by (simp add: read_cells_def)

lemma leaf_entries_Merge:
  assumes "0 \<le> leaf_size l" "0 \<le> n"
  shows "leaf_entries ((leaf_Merge l src n)\<lparr>leaf_next_page_id := nx\<rparr>) =
           leaf_entries l @ read_cells src 0 (nat n)"
proof (rule nth_equalityI)
  show "length (leaf_entries ((leaf_Merge l src n)\<lparr>leaf_next_page_id := nx\<rparr>)) =
        length (leaf_entries l @ read_cells src 0 (nat n))"
    using assms by (simp add: leaf_entries_def leaf_Merge_def length_read_cells nat_add_distrib)
next
  fix i assume "i < length (leaf_entries ((leaf_Merge l src n)\<lparr>leaf_next_page_id := nx\<rparr>))"
  then have i: "i < nat (leaf_size l) + nat n"
    using assms by (simp add: leaf_entries_def leaf_Merge_def length_read_cells nat_add_distrib)
  then show "leaf_entries ((leaf_Merge l src n)\<lparr>leaf_next_page_id := nx\<rparr>) ! i =
        (leaf_entries l @ read_cells src 0 (nat n)) ! i"
    using assms
    by (auto simp: leaf_entries_def leaf_Merge_def length_read_cells nth_read_cells
          cell_write_cells nth_append nat_add_distrib)
qed

lemma pick_siblings_up_value:
  "pick_siblings t cur lf rest idx = Some sc \<Longrightarrow> sc_up_value sc = sc_right_id sc"
  by (auto simp: pick_siblings_def Let_def split: list.splits Option.bind_splits)

lemma leaf_merge_step:
  assumes fl: "fetch_leaf (tree_pages t) cur = Some lp"
    and del: "leaf_Delete lp key v = (True, leaf1)"
    and nr: "cur \<noteq> root"
    and below: "leaf_size leaf1 < leaf_max_size leaf1"
    and ps: "pick_siblings (set_page t cur (LeafNode leaf1)) cur leaf1 rest idx = Some sc"
    and comb: "leaf_size (sc_left_page sc) + leaf_size (sc_right_page sc) < leaf_max_size (sc_left_page sc)"
  shows "DeleteEntry t root key v (cur # rest) idx =
           DeleteInternalEntry
             (set_page (set_page t cur (LeafNode leaf1)) (sc_left_id sc)
                (LeafNode ((leaf_Merge (sc_left_page sc) (leaf_array (sc_right_page sc))
                              (leaf_size (sc_right_page sc)))
                             \<lparr>leaf_next_page_id := leaf_next_page_id (sc_right_page sc)\<rparr>)))
             root (sc_up_key sc) (sc_right_id sc) rest idx"
  using assms pick_siblings_up_value[OF ps]
  by (simp add: DeleteEntry_def leaf_rebalance_def Let_def)

lemma tree_Remove_DeleteEntry:
  assumes "header_root t = Some root" "root \<noteq> INVALID_PAGE_ID"
    and "descend (tree_pages t) key root [] Map.empty = Some (cur, rest, idx)"
    and "fetch_leaf (tree_pages t) cur = Some lp"
    and "leaf_FindValue lp key = Some (v, i)"
  shows "tree_Remove t key = DeleteEntry t root key v (cur # rest) idx"
  using assms by (simp add: tree_Remove_def)


lemma leaf_Delete_after_FindValue:
  assumes "leaf_FindValue lp key = Some (v, i)" "leaf_size lp \<noteq> 0"
  shows "fst (leaf_Delete lp key v)"
  using assms by (auto simp: leaf_FindValue_def leaf_Delete_def Let_def split: if_splits)

lemma Remove_5_eval: "tree_Remove S3_tree 5 = Some S4_after_5"
  by (simp add: S3_tree_eval S4_after_5_eval)
     (simp add: tree_eval cong: bind_weak_cong let_weak_cong)

lemma Remove_4_eval: "tree_Remove S4_after_5 4 = Some S4_tree"
  by (simp add: S4_after_5_eval S4_tree_eval)
     (simp add: tree_eval cong: bind_weak_cong let_weak_cong)

lemma S4_tree_facts:
  "header_root S4_tree = Some 1 \<and>
   map_option leaf_entries (fetch_leaf (tree_pages S4_tree) 1) = Some [(1, 1), (2, 2), (3, 3)] \<and>
   map_option leaf_next_page_id (fetch_leaf (tree_pages S4_tree) 1) = Some INVALID_PAGE_ID"
  by (simp add: S4_tree_eval header_root_def fetch_leaf_def leaf_entries_def read_cells_def
        cell_def upt_conv_Cons INVALID_PAGE_ID_def)

text \<open>
  Claim C1. A \<^verbatim>\<open>Remove\<close> that finds its key in a leaf other than the root, deletes it and
  leaves the leaf with fewer than \<^verbatim>\<open>max_size\<close> entries, rebalances with the sibling that
  \<open>pick_siblings\<close> chooses: when the two sizes add up to less than \<^verbatim>\<open>max_size\<close>, the
  entries of the right page are appended to the left page, the left page takes the right
  page's \<^verbatim>\<open>next_page_id\<close>, and the rest of the call is \<^verbatim>\<open>DeleteInternalEntry\<close> on the
  parent with the separating key and the right page's id. From the S3 tree, removing 5 and
  then 4 ends with the header pointing to a single leaf that holds \<open>{1,2,3}\<close> and has no next
  leaf.
\<close>

theorem leaf_merge_S4:
  "(header_root t = Some root \<and> root \<noteq> INVALID_PAGE_ID \<and>
    descend (tree_pages t) key root [] Map.empty = Some (cur, rest, idx) \<and>
    fetch_leaf (tree_pages t) cur = Some lp \<and>
    leaf_FindValue lp key = Some (v, i) \<and>
    leaf_Delete lp key v = (True, leaf1) \<and>
    cur \<noteq> root \<and>
    leaf_size leaf1 < leaf_max_size leaf1 \<and>
    pick_siblings (set_page t cur (LeafNode leaf1)) cur leaf1 rest idx = Some sc \<and>
    0 \<le> leaf_size (sc_left_page sc) \<and> 0 \<le> leaf_size (sc_right_page sc) \<and>
    leaf_size (sc_left_page sc) + leaf_size (sc_right_page sc) < leaf_max_size (sc_left_page sc) \<longrightarrow>
    tree_Remove t key =
      DeleteInternalEntry
        (set_page (set_page t cur (LeafNode leaf1)) (sc_left_id sc)
           (LeafNode ((leaf_Merge (sc_left_page sc) (leaf_array (sc_right_page sc))
                         (leaf_size (sc_right_page sc)))
                        \<lparr>leaf_next_page_id := leaf_next_page_id (sc_right_page sc)\<rparr>)))
        root (sc_up_key sc) (sc_right_id sc) rest idx \<and>
    leaf_entries ((leaf_Merge (sc_left_page sc) (leaf_array (sc_right_page sc))
                     (leaf_size (sc_right_page sc)))
                    \<lparr>leaf_next_page_id := leaf_next_page_id (sc_right_page sc)\<rparr>) =
      leaf_entries (sc_left_page sc) @ leaf_entries (sc_right_page sc) \<and>
    leaf_next_page_id ((leaf_Merge (sc_left_page sc) (leaf_array (sc_right_page sc))
                     (leaf_size (sc_right_page sc)))
                    \<lparr>leaf_next_page_id := leaf_next_page_id (sc_right_page sc)\<rparr>) =
      leaf_next_page_id (sc_right_page sc)) \<and>
   tree_Remove S3_tree 5 = Some S4_after_5 \<and>
   tree_Remove S4_after_5 4 = Some S4_tree \<and>
   header_root S4_tree = Some 1 \<and>
   map_option leaf_entries (fetch_leaf (tree_pages S4_tree) 1) = Some [(1, 1), (2, 2), (3, 3)] \<and>
   map_option leaf_next_page_id (fetch_leaf (tree_pages S4_tree) 1) = Some INVALID_PAGE_ID"
proof -
  have gen: "tree_Remove t key =
      DeleteInternalEntry
        (set_page (set_page t cur (LeafNode leaf1)) (sc_left_id sc)
           (LeafNode ((leaf_Merge (sc_left_page sc) (leaf_array (sc_right_page sc))
                         (leaf_size (sc_right_page sc)))
                        \<lparr>leaf_next_page_id := leaf_next_page_id (sc_right_page sc)\<rparr>)))
        root (sc_up_key sc) (sc_right_id sc) rest idx"
    if "header_root t = Some root" "root \<noteq> INVALID_PAGE_ID"
      "descend (tree_pages t) key root [] Map.empty = Some (cur, rest, idx)"
      "fetch_leaf (tree_pages t) cur = Some lp"
      "leaf_FindValue lp key = Some (v, i)"
      "leaf_Delete lp key v = (True, leaf1)"
      "cur \<noteq> root"
      "leaf_size leaf1 < leaf_max_size leaf1"
      "pick_siblings (set_page t cur (LeafNode leaf1)) cur leaf1 rest idx = Some sc"
      "leaf_size (sc_left_page sc) + leaf_size (sc_right_page sc) < leaf_max_size (sc_left_page sc)"
    using tree_Remove_DeleteEntry[OF that(1-5)] leaf_merge_step[OF that(4) that(6-10)] by simp
  have ent: "leaf_entries ((leaf_Merge (sc_left_page sc) (leaf_array (sc_right_page sc))
                     (leaf_size (sc_right_page sc)))
                    \<lparr>leaf_next_page_id := leaf_next_page_id (sc_right_page sc)\<rparr>) =
      leaf_entries (sc_left_page sc) @ leaf_entries (sc_right_page sc)"
    if "0 \<le> leaf_size (sc_left_page sc)" "0 \<le> leaf_size (sc_right_page sc)"
    using leaf_entries_Merge[OF that] by (simp add: leaf_entries_def)
  have nx: "leaf_next_page_id ((leaf_Merge (sc_left_page sc) (leaf_array (sc_right_page sc))
                     (leaf_size (sc_right_page sc)))
                    \<lparr>leaf_next_page_id := leaf_next_page_id (sc_right_page sc)\<rparr>) =
      leaf_next_page_id (sc_right_page sc)"
    by simp
  from gen ent nx Remove_5_eval Remove_4_eval S4_tree_facts show ?thesis by blast
qed


text \<open>The merge step at the removal of 4, after 5 has been removed from the S3 tree.\<close>

theorem leaf_merge_S4_remove_4:
  "header_root S4_after_5 = Some 3 \<and>
   descend (tree_pages S4_after_5) 4 3 [] Map.empty = Some (2, [3], [2 \<mapsto> 1]) \<and>
   fetch_leaf (tree_pages S4_after_5) 2 = Some \<lparr>leaf_size = 3, leaf_max_size = 4, leaf_parent_page_id = 3,
           leaf_next_page_id = - 1, leaf_array = [(2, 2), (3, 3), (4, 4)]\<rparr> \<and>
   leaf_FindValue \<lparr>leaf_size = 3, leaf_max_size = 4, leaf_parent_page_id = 3,
           leaf_next_page_id = - 1, leaf_array = [(2, 2), (3, 3), (4, 4)]\<rparr> 4 = Some (4, 2) \<and>
   leaf_Delete \<lparr>leaf_size = 3, leaf_max_size = 4, leaf_parent_page_id = 3,
           leaf_next_page_id = - 1, leaf_array = [(2, 2), (3, 3), (4, 4)]\<rparr> 4 4 = (True, \<lparr>leaf_size = 2, leaf_max_size = 4, leaf_parent_page_id = 3,
           leaf_next_page_id = - 1, leaf_array = [(2, 2), (3, 3), (4, 4)]\<rparr>) \<and>
   pick_siblings (set_page S4_after_5 2 (LeafNode \<lparr>leaf_size = 2, leaf_max_size = 4, leaf_parent_page_id = 3,
           leaf_next_page_id = - 1, leaf_array = [(2, 2), (3, 3), (4, 4)]\<rparr>)) 2 \<lparr>leaf_size = 2, leaf_max_size = 4, leaf_parent_page_id = 3,
           leaf_next_page_id = - 1, leaf_array = [(2, 2), (3, 3), (4, 4)]\<rparr> [3] [2 \<mapsto> 1] =
     Some \<lparr>sc_is_last_entry = True, sc_index_in_parent = 1, sc_parent_id = 3,
           sc_parent_page = \<lparr>int_size = 2, int_max_size = 5, int_parent_page_id = - 1,
           int_array = [(0, 1), (2, 2)]\<rparr>,
           sc_left_id = 1, sc_left_page = \<lparr>leaf_size = 1, leaf_max_size = 4, leaf_parent_page_id = 3,
           leaf_next_page_id = 2, leaf_array = [(1, 1), (2, 2), (3, 3), (4, 4)]\<rparr>,
           sc_right_id = 2, sc_right_page = \<lparr>leaf_size = 2, leaf_max_size = 4, leaf_parent_page_id = 3,
           leaf_next_page_id = - 1, leaf_array = [(2, 2), (3, 3), (4, 4)]\<rparr>,
           sc_up_key = 2, sc_up_value = 2\<rparr> \<and>
   tree_Remove S4_after_5 4 =
     DeleteInternalEntry
       (set_page (set_page S4_after_5 2 (LeafNode \<lparr>leaf_size = 2, leaf_max_size = 4, leaf_parent_page_id = 3,
           leaf_next_page_id = - 1, leaf_array = [(2, 2), (3, 3), (4, 4)]\<rparr>)) 1 (LeafNode \<lparr>leaf_size = 3, leaf_max_size = 4, leaf_parent_page_id = 3,
           leaf_next_page_id = - 1, leaf_array = [(1, 1), (2, 2), (3, 3), (4, 4)]\<rparr>))
       3 2 2 [3] [2 \<mapsto> 1] \<and>
   leaf_entries \<lparr>leaf_size = 3, leaf_max_size = 4, leaf_parent_page_id = 3,
           leaf_next_page_id = - 1, leaf_array = [(1, 1), (2, 2), (3, 3), (4, 4)]\<rparr> = [(1, 1)] @ [(2, 2), (3, 3)]"
proof -
  let ?L2 = "\<lparr>leaf_size = 3, leaf_max_size = 4, leaf_parent_page_id = 3,
           leaf_next_page_id = - 1, leaf_array = [(2, 2), (3, 3), (4, 4)]\<rparr>"
  let ?L2p = "\<lparr>leaf_size = 2, leaf_max_size = 4, leaf_parent_page_id = 3,
           leaf_next_page_id = - 1, leaf_array = [(2, 2), (3, 3), (4, 4)]\<rparr>"
  let ?L1 = "\<lparr>leaf_size = 1, leaf_max_size = 4, leaf_parent_page_id = 3,
           leaf_next_page_id = 2, leaf_array = [(1, 1), (2, 2), (3, 3), (4, 4)]\<rparr>"
  let ?M = "\<lparr>leaf_size = 3, leaf_max_size = 4, leaf_parent_page_id = 3,
           leaf_next_page_id = - 1, leaf_array = [(1, 1), (2, 2), (3, 3), (4, 4)]\<rparr>"
  let ?SC = "\<lparr>sc_is_last_entry = True, sc_index_in_parent = 1, sc_parent_id = 3,
           sc_parent_page = \<lparr>int_size = 2, int_max_size = 5, int_parent_page_id = - 1,
           int_array = [(0, 1), (2, 2)]\<rparr>,
           sc_left_id = 1, sc_left_page = \<lparr>leaf_size = 1, leaf_max_size = 4, leaf_parent_page_id = 3,
           leaf_next_page_id = 2, leaf_array = [(1, 1), (2, 2), (3, 3), (4, 4)]\<rparr>,
           sc_right_id = 2, sc_right_page = \<lparr>leaf_size = 2, leaf_max_size = 4, leaf_parent_page_id = 3,
           leaf_next_page_id = - 1, leaf_array = [(2, 2), (3, 3), (4, 4)]\<rparr>,
           sc_up_key = 2, sc_up_value = 2\<rparr>"
  have r: "header_root S4_after_5 = Some 3" "(3::int) \<noteq> INVALID_PAGE_ID" "(2::int) \<noteq> 3"
    by (simp_all add: S4_after_5_eval header_root_def INVALID_PAGE_ID_def)
  have d: "descend (tree_pages S4_after_5) 4 3 [] Map.empty = Some (2, [3], [2 \<mapsto> 1])"
    by (simp add: S4_after_5_eval) (simp add: tree_eval cong: bind_weak_cong let_weak_cong)
  have f: "fetch_leaf (tree_pages S4_after_5) 2 = Some ?L2"
    by (simp add: S4_after_5_eval fetch_leaf_def)
  have fv: "leaf_FindValue ?L2 4 = Some (4, 2)"
    by (simp add: tree_eval cong: bind_weak_cong let_weak_cong)
  have dl: "leaf_Delete ?L2 4 4 = (True, ?L2p)"
    by (simp add: tree_eval cong: bind_weak_cong let_weak_cong)
  have ps: "pick_siblings (set_page S4_after_5 2 (LeafNode ?L2p)) 2 ?L2p [3] [2 \<mapsto> 1] = Some ?SC"
    by (simp add: S4_after_5_eval) (simp add: tree_eval cong: bind_weak_cong let_weak_cong)
  have m: "(leaf_Merge ?L1 (leaf_array ?L2p) (leaf_size ?L2p))\<lparr>leaf_next_page_id := leaf_next_page_id ?L2p\<rparr> = ?M"
    by (simp add: tree_eval cong: bind_weak_cong let_weak_cong)
  have e: "leaf_entries ?L1 = [(1, 1)]" "leaf_entries ?L2p = [(2, 2), (3, 3)]"
    by (simp_all add: leaf_entries_def read_cells_def cell_def upt_conv_Cons)
  from leaf_merge_S4[where t = S4_after_5 and root = 3 and key = 4 and cur = 2 and rest = "[3]"
      and idx = "[2 \<mapsto> 1]" and lp = ?L2 and v = 4 and i = 2 and ?leaf1.0 = ?L2p and sc = ?SC]
    r d f fv dl ps
  have "tree_Remove S4_after_5 4 =
     DeleteInternalEntry
       (set_page (set_page S4_after_5 2 (LeafNode ?L2p)) 1
          (LeafNode ((leaf_Merge ?L1 (leaf_array ?L2p) (leaf_size ?L2p))
                       \<lparr>leaf_next_page_id := leaf_next_page_id ?L2p\<rparr>)))
       3 2 2 [3] [2 \<mapsto> 1] \<and>
     leaf_entries ((leaf_Merge ?L1 (leaf_array ?L2p) (leaf_size ?L2p))
                       \<lparr>leaf_next_page_id := leaf_next_page_id ?L2p\<rparr>) =
       leaf_entries ?L1 @ leaf_entries ?L2p"
    by simp
  then show ?thesis
    using r(1) d f fv dl ps by (simp only: m e simp_thms)
qed

end
